theory Spec2Isabelle
  imports Complex_Main "HOL-Library.Char_ord" "HOL-Library.List_Lexorder"
begin

section \<open>Text: character classes and the regular expressions of index.js\<close>

text \<open>
  A JavaScript string is modelled as a \<^typ>\<open>string\<close>, one \<^typ>\<open>char\<close> per code unit,
  so the model covers texts whose code units are below 256. In that range the class
  \<^verbatim>\<open>\s\<close> (and what \<^verbatim>\<open>trim()\<close> strips) is tab, line feed, vertical tab, form
  feed, carriage return, space and no-break space; \<^verbatim>\<open>\d\<close> is \<^verbatim>\<open>[0-9]\<close>;
  \<^verbatim>\<open>\w\<close> is \<^verbatim>\<open>[A-Za-z0-9_]\<close>; and the flag \<^verbatim>\<open>i\<close> folds the ASCII letters
  only.
\<close>

definition is_digit :: "char \<Rightarrow> bool" where
  "is_digit c = (c \<in> set ''0123456789'')"

definition is_space :: "char \<Rightarrow> bool" where
  "is_space c = (c \<in> set [CHR 0x09, CHR 0x0A, CHR 0x0B, CHR 0x0C, CHR 0x0D, CHR 0x20, CHR 0xA0])"

definition upper_letters :: string where
  "upper_letters = ''ABCDEFGHIJKLMNOPQRSTUVWXYZ''"

definition lower_letters :: string where
  "lower_letters = ''abcdefghijklmnopqrstuvwxyz''"

definition is_alpha :: "char \<Rightarrow> bool" where
  "is_alpha c = (c \<in> set upper_letters \<or> c \<in> set lower_letters)"

definition is_word :: "char \<Rightarrow> bool" where
  "is_word c = (is_alpha c \<or> is_digit c \<or> c = CHR ''_'')"

definition lower_char :: "char \<Rightarrow> char" where
  "lower_char c = (case map_of (zip upper_letters lower_letters) c of Some d \<Rightarrow> d | None \<Rightarrow> c)"

definition toLowerCase :: "string \<Rightarrow> string" where
  "toLowerCase s = map lower_char s"

definition trim :: "string \<Rightarrow> string" where
  "trim s = rev (dropWhile is_space (rev (dropWhile is_space s)))"

section \<open>Numbers\<close>

text \<open>
  A JavaScript number is a double. The values that the code computes from digits are
  integers or decimal fractions, so the model keeps a number as the integer or rational
  that the double is, and rounds where JavaScript rounds: to the nearest double, ties to
  the even significand. \<open>Infinity\<close> is written as \<open>2 ^ 1024\<close>, which is larger
  than every double; comparison and equality of the values are then those of JavaScript.
\<close>

definition INFINITY :: int where
  "INFINITY = 2 ^ 1024"

text \<open>\<open>a / b\<close> rounded to the nearest integer, ties to even (\<open>0 \<le> a\<close>, \<open>0 < b\<close>).\<close>

definition round_half_even :: "int \<Rightarrow> int \<Rightarrow> int" where
  "round_half_even a b =
     (let q = a div b; r = a mod b
      in if 2 * r > b then q + 1
         else if 2 * r = b then (if odd q then q + 1 else q)
         else q)"

text \<open>The distance between the doubles around \<open>n \<ge> 2^53\<close>: the power of two \<open>p\<close>
  with \<open>2^52 \<le> n div p < 2^53\<close>.\<close>

function double_unit :: "int \<Rightarrow> int" where
  "double_unit n = (if n < 9007199254740992 then 1 else 2 * double_unit (n div 2))"
  by pat_completeness auto
termination
  by (relation "measure nat") auto

declare double_unit.simps [simp del]

text \<open>The double nearest to an integer; integers below \<open>2^53\<close> in absolute value are
  doubles.\<close>

definition to_double :: "int \<Rightarrow> int" where
  "to_double n =
     (if - 9007199254740992 < n \<and> n < 9007199254740992 then n
      else if n < 0
        then - min INFINITY (round_half_even (- n) (double_unit (- n)) * double_unit (- n))
        else min INFINITY (round_half_even n (double_unit n) * double_unit n))"

text \<open>
  The double nearest to \<open>a / b\<close> (\<open>0 \<le> a\<close>, \<open>0 < b\<close>): the quotient is scaled by a
  power of two into \<open>[2^52, 2^53)\<close>, where the doubles are the integers, rounded there
  and scaled back. The scaling stops at \<open>2^1074\<close>, the spacing of the smallest doubles.
\<close>

function scale_den :: "int \<Rightarrow> int \<Rightarrow> int" where
  "scale_den a b =
     (if b \<le> 0 \<or> a < 9007199254740992 * b then b else scale_den a (2 * b))"
  by pat_completeness auto
termination
  by (relation "measure (\<lambda>(a, b). nat (a - 9007199254740992 * b + 1))") auto

declare scale_den.simps [simp del]

function scale_num :: "int \<Rightarrow> int \<Rightarrow> int \<Rightarrow> int" where
  "scale_num a b s =
     (if s \<le> 0 \<or> 4503599627370496 * b \<le> a then a else scale_num (2 * a) b (s - 1))"
  by pat_completeness auto
termination
  by (relation "measure (\<lambda>(a, b, s). nat s)") auto

declare scale_num.simps [simp del]

definition ratio_to_double :: "int \<Rightarrow> int \<Rightarrow> rat" where
  "ratio_to_double a b =
     (if a = 0 then 0
      else if 9007199254740992 * b \<le> a
        then (let b' = scale_den a b
              in min (of_int INFINITY) (of_int (round_half_even a b' * (b' div b))))
        else (let a' = scale_num a b 1074
              in of_int (round_half_even a' b) * of_int a / of_int a'))"

definition digit_val :: "char \<Rightarrow> int" where
  "digit_val c =
     (case map_of (zip ''0123456789'' [0, 1, 2, 3, 4, 5, 6, 7, 8, 9]) c of
        Some d \<Rightarrow> d
      | None \<Rightarrow> 0)"

text \<open>The integer that a string of digits denotes.\<close>

definition digits_value :: "string \<Rightarrow> int" where
  "digits_value s = foldl (\<lambda>a c. 10 * a + digit_val c) 0 s"

text \<open>\<^verbatim>\<open>Number(m[1])\<close> on a match of \<^verbatim>\<open>\d+\<close>: the double nearest to the integer.\<close>

definition number_of_digits :: "string \<Rightarrow> int" where
  "number_of_digits s = to_double (digits_value s)"

section \<open>The regular expressions of index.js\<close>

datatype cls = Digit | Space | Alpha | Price_char | One_of string | Not_in string

fun in_cls :: "cls \<Rightarrow> char \<Rightarrow> bool" where
  "in_cls Digit c = is_digit c"
| "in_cls Space c = is_space c"
| "in_cls Alpha c = is_alpha c"
| "in_cls Price_char c = (is_digit c \<or> c = CHR '','' \<or> c = CHR ''.'')"
| "in_cls (One_of cs) c = (c \<in> set cs)"
| "in_cls (Not_in cs) c = (c \<notin> set cs)"

text \<open>
  The fragment of regular expressions that index.js uses: literals, a greedy repetition
  \<open>{lo,hi}\<close> of one character class, sequence, ordered alternative, numbered capture
  group, \<^verbatim>\<open>\b\<close>, \<^verbatim>\<open>^\<close> and \<^verbatim>\<open>$\<close>.
\<close>

datatype re =
    Eps
  | Lit string
  | Rep cls nat "nat option"
  | Seq re re
  | Alt re re
  | Grp nat re
  | Word_b
  | Bol
  | Eol

type_synonym caps = "(nat \<times> string) list"

text \<open>A position in the subject: the character before it, if any, and the text from it
  on. The matcher carries the captures made so far along with the position.\<close>

type_synonym mstate = "char option \<times> string \<times> caps"

definition char_eq :: "bool \<Rightarrow> char \<Rightarrow> char \<Rightarrow> bool" where
  "char_eq ic a b = (if a = b then True else if ic then lower_char a = lower_char b else False)"

text \<open>A literal at the front of a text: the text it matches there and the rest.\<close>

fun lit_prefix :: "bool \<Rightarrow> string \<Rightarrow> string \<Rightarrow> (string \<times> string) option" where
  "lit_prefix ic [] xs = Some ([], xs)"
| "lit_prefix ic (l # ls) [] = None"
| "lit_prefix ic (l # ls) (x # xs) =
     (if char_eq ic l x
      then (case lit_prefix ic ls xs of None \<Rightarrow> None | Some (m, rest) \<Rightarrow> Some (x # m, rest))
      else None)"

definition prev_after :: "char option \<Rightarrow> string \<Rightarrow> char option" where
  "prev_after b m = (if m = [] then b else Some (last m))"

text \<open>The ways to split off a run of at most \<open>hi\<close> characters of the class \<open>k\<close> from
  the front of a text, shortest first; \<open>acc\<close> is the run so far.\<close>

fun class_splits :: "cls \<Rightarrow> nat option \<Rightarrow> string \<Rightarrow> string \<Rightarrow> (string \<times> string) list" where
  "class_splits k hi acc [] = [(acc, [])]"
| "class_splits k hi acc (x # xs) =
     (acc, x # xs) #
       (if in_cls k x \<and> hi \<noteq> Some 0
        then class_splits k (map_option (\<lambda>h. h - 1) hi) (acc @ [x]) xs
        else [])"

definition word_boundary :: "char option \<Rightarrow> string \<Rightarrow> bool" where
  "word_boundary b xs =
     ((case b of None \<Rightarrow> False | Some c \<Rightarrow> is_word c)
        \<noteq> (case xs of [] \<Rightarrow> False | x # _ \<Rightarrow> is_word x))"

text \<open>
  The backtracking matcher: \<open>rmatch ic r (b, xs, c)\<close> lists, in the order in which
  JavaScript tries them, the matches of \<open>r\<close> that start at the position \<open>(b, xs)\<close>:
  the text matched and the state after it. A repetition is greedy, so its longest run
  comes first; an alternative tries its left side first. The first element is the match
  that a search reports.
\<close>

fun rmatch :: "bool \<Rightarrow> re \<Rightarrow> mstate \<Rightarrow> (string \<times> mstate) list" where
  "rmatch ic Eps st = [([], st)]"
| "rmatch ic (Lit l) (b, xs, c) =
     (case lit_prefix ic l xs of
        None \<Rightarrow> []
      | Some (m, rest) \<Rightarrow> [(m, (prev_after b m, rest, c))])"
| "rmatch ic (Rep k lo hi) (b, xs, c) =
     map (\<lambda>(m, rest). (m, (prev_after b m, rest, c)))
       (rev (filter (\<lambda>(m, rest). lo \<le> length m) (class_splits k hi [] xs)))"
| "rmatch ic (Seq r1 r2) st =
     concat (map (\<lambda>(m1, st1). map (\<lambda>(m2, st2). (m1 @ m2, st2)) (rmatch ic r2 st1))
                 (rmatch ic r1 st))"
| "rmatch ic (Alt r1 r2) st = rmatch ic r1 st @ rmatch ic r2 st"
| "rmatch ic (Grp i r) st =
     map (\<lambda>(m, (b', xs', c')). (m, (b', xs', (i, m) # c'))) (rmatch ic r st)"
| "rmatch ic Word_b (b, xs, c) = (if word_boundary b xs then [([], (b, xs, c))] else [])"
| "rmatch ic Bol (b, xs, c) = (if b = None then [([], (b, xs, c))] else [])"
| "rmatch ic Eol (b, xs, c) = (if xs = [] then [([], (b, xs, c))] else [])"

text \<open>\<^verbatim>\<open>s.match(r)\<close> without the flag \<^verbatim>\<open>g\<close>: the leftmost start position that
  matches, with the captures of the first match there.\<close>

fun search :: "bool \<Rightarrow> re \<Rightarrow> char option \<Rightarrow> string \<Rightarrow> caps option" where
  "search ic r b [] =
     (case rmatch ic r (b, [], []) of
        [] \<Rightarrow> None
      | (m, (b', xs', c)) # _ \<Rightarrow> Some c)"
| "search ic r b (x # xs) =
     (case rmatch ic r (b, x # xs, []) of
        [] \<Rightarrow> search ic r (Some x) xs
      | (m, (b', xs', c)) # _ \<Rightarrow> Some c)"

definition re_match :: "bool \<Rightarrow> re \<Rightarrow> string \<Rightarrow> caps option" where
  "re_match ic r s = search ic r None s"

definition grp :: "caps \<Rightarrow> nat \<Rightarrow> string" where
  "grp c i = (case map_of c i of Some g \<Rightarrow> g | None \<Rightarrow> [])"

definition seqs :: "re list \<Rightarrow> re" where
  "seqs rs = foldr Seq rs Eps"

definition opt :: "re \<Rightarrow> re" where
  "opt r = Alt r Eps"

definition star :: "cls \<Rightarrow> re" where
  "star k = Rep k 0 None"

definition plus :: "cls \<Rightarrow> re" where
  "plus k = Rep k 1 None"


text \<open>\<^verbatim>\<open>text.replace(/\s+/g, " ")\<close>: every maximal run of white space becomes one space.\<close>

function collapse_ws :: "string \<Rightarrow> string" where
  "collapse_ws [] = []"
| "collapse_ws (c # cs) =
     (if is_space c then CHR '' '' # collapse_ws (dropWhile is_space cs)
      else c # collapse_ws cs)"
  by pat_completeness auto
termination
  by (relation "measure length") (auto simp: less_Suc_eq_le length_dropWhile_le)

text \<open>\<^verbatim>\<open>t.match(/\d+/g) || []\<close>: the maximal runs of digits, left to right.\<close>

function digit_runs :: "string \<Rightarrow> string list" where
  "digit_runs [] = []"
| "digit_runs (c # cs) =
     (if is_digit c then (c # takeWhile is_digit cs) # digit_runs (dropWhile is_digit cs)
      else digit_runs cs)"
  by pat_completeness auto
termination
  by (relation "measure length") (auto simp: less_Suc_eq_le length_dropWhile_le)

text \<open>
  \<^verbatim>\<open>Number(priceRaw)\<close> on a string of digits and dots (what \<^verbatim>\<open>[\d,\.]+\<close> leaves once
  the commas are removed): the empty string is 0, a decimal literal with at most one dot
  and at least one digit is the double nearest to its value, anything else is NaN.
\<close>

datatype number = Num rat | NaN

definition Number_price :: "string \<Rightarrow> number" where
  "Number_price s =
     (let ip = takeWhile is_digit s; rest = dropWhile is_digit s
      in case rest of
           [] \<Rightarrow> Num (ratio_to_double (digits_value ip) 1)
         | d # fp \<Rightarrow>
             if d = CHR ''.'' \<and> list_all is_digit fp \<and> \<not> (ip = [] \<and> fp = [])
             then Num (ratio_to_double (digits_value (ip @ fp)) (10 ^ length fp))
             else NaN)"

section \<open>Parsing helpers\<close>

definition re_mention :: re where
  \<comment> \<open>\<^verbatim>\<open>/<@!?(\d{17,20})>/\<close>\<close>
  "re_mention = seqs [Lit ''<@'', opt (Lit ''!''), Grp 1 (Rep Digit 17 (Some 20)), Lit ''>'']"

definition re_bracket_start :: re where
  \<comment> \<open>\<^verbatim>\<open>/^\[([^\]]{1,64})\]/\<close>\<close>
  "re_bracket_start = seqs [Bol, Lit ''['', Grp 1 (Rep (Not_in '']'') 1 (Some 64)), Lit '']'']"

definition re_bracket :: re where
  \<comment> \<open>\<^verbatim>\<open>/\[([^\]]{1,64})\]/\<close>\<close>
  "re_bracket = seqs [Lit ''['', Grp 1 (Rep (Not_in '']'') 1 (Some 64)), Lit '']'']"

definition re_pipe :: re where
  \<comment> \<open>\<^verbatim>\<open>/^([^|\n]{1,64})\s*\|/\<close>\<close>
  "re_pipe = seqs [Bol, Grp 1 (Rep (Not_in [CHR ''|'', CHR 0x0A]) 1 (Some 64)), star Space, Lit ''|'']"

definition re_ranch_id :: re where
  \<comment> \<open>\<^verbatim>\<open>/ranch\s*id\s*[:#]?\s*(\d+)/i\<close>\<close>
  "re_ranch_id = seqs [Lit ''ranch'', star Space, Lit ''id'', star Space,
                       Rep (One_of '':#'') 0 (Some 1), star Space, Grp 1 (plus Digit)]"

definition re_ranch :: re where
  \<comment> \<open>\<^verbatim>\<open>/\branch\s*(\d+)/i\<close>\<close>
  "re_ranch = seqs [Word_b, Lit ''ranch'', star Space, Grp 1 (plus Digit)]"

definition re_near :: re where
  \<comment> \<open>\<^verbatim>\<open>/(\d+)\s*(eggs?|milk)\b/i\<close>\<close>
  "re_near = seqs [Grp 1 (plus Digit), star Space,
                   Grp 2 (Alt (Seq (Lit ''egg'') (opt (Lit ''s''))) (Lit ''milk'')), Word_b]"

definition re_herd :: re where
  \<comment> \<open>\<^verbatim>\<open>/\b(bought|sold)\b\s+(\d+)\s+([A-Za-z]+)\s+for\s+\$?([\d,\.]+)\$?/i\<close>\<close>
  "re_herd = seqs [Word_b, Grp 1 (Alt (Lit ''bought'') (Lit ''sold'')), Word_b, plus Space,
                   Grp 2 (plus Digit), plus Space, Grp 3 (plus Alpha), plus Space,
                   Lit ''for'', plus Space, opt (Lit ''$''), Grp 4 (plus Price_char),
                   opt (Lit ''$'')]"

definition re_has_eggs :: re where
  \<comment> \<open>\<^verbatim>\<open>/\beggs?\b/i\<close>\<close>
  "re_has_eggs = seqs [Word_b, Lit ''egg'', opt (Lit ''s''), Word_b]"

definition re_has_milk :: re where
  \<comment> \<open>\<^verbatim>\<open>/\bmilk\b/i\<close>\<close>
  "re_has_milk = seqs [Word_b, Lit ''milk'', Word_b]"

definition re_unknown :: re where
  \<comment> \<open>\<^verbatim>\<open>/^unknown$/i\<close>\<close>
  "re_unknown = seqs [Bol, Lit ''unknown'', Eol]"

definition re_since :: re where
  \<comment> \<open>\<^verbatim>\<open>/^(\d+)\s*(h|d)$/i\<close>\<close>
  "re_since = seqs [Bol, Grp 1 (plus Digit), star Space, Grp 2 (Alt (Lit ''h'') (Lit ''d'')), Eol]"

definition extractDiscordId :: "string \<Rightarrow> string option" where
  "extractDiscordId text =
     (if text = [] then None
      else case re_match False re_mention text of
             Some m \<Rightarrow> Some (grp m 1)
           | None \<Rightarrow> None)"

definition extractActorName :: "string \<Rightarrow> string option" where
  "extractActorName text =
     (if text = [] then None
      else case (case re_match False re_bracket_start text of
                   Some br \<Rightarrow> Some br
                 | None \<Rightarrow> re_match False re_bracket text) of
             Some br \<Rightarrow> Some (trim (grp br 1))
           | None \<Rightarrow>
               (case re_match False re_pipe text of
                  Some pipe \<Rightarrow> Some (trim (grp pipe 1))
                | None \<Rightarrow> None))"

definition extractRanchId :: "string \<Rightarrow> int option" where
  "extractRanchId text =
     (if text = [] then None
      else case (case re_match True re_ranch_id text of
                   Some m \<Rightarrow> Some m
                 | None \<Rightarrow> re_match True re_ranch text) of
             Some m \<Rightarrow> Some (number_of_digits (grp m 1))
           | None \<Rightarrow> None)"

datatype item_type = Eggs | Milk | Herd_buy | Herd_sell

record item =
  i_item_type :: item_type
  i_amount :: int
  i_value :: number
  i_subtype :: "string option"

definition extractItemAndAmount :: "string \<Rightarrow> item option" where
  "extractItemAndAmount text =
     (if text = [] then None
      else
        let t = trim (collapse_ws text) in
        case re_match True re_near t of
          Some near \<Rightarrow>
            let amount = number_of_digits (grp near 1);
                itemRaw = toLowerCase (grp near 2);
                item_type = (if take 4 itemRaw = ''milk'' then Milk else Eggs)
            in Some \<lparr>i_item_type = item_type, i_amount = amount, i_value = Num 0,
                     i_subtype = None\<rparr>
        | None \<Rightarrow>
            (case re_match True re_herd t of
               Some herd \<Rightarrow>
                 let action = toLowerCase (grp herd 1);
                     cnt = number_of_digits (grp herd 2);
                     animal = toLowerCase (grp herd 3);
                     priceRaw = filter (\<lambda>c. c \<noteq> CHR '','') (grp herd 4);
                     price = Number_price priceRaw
                 in if action = ''bought''
                    then Some \<lparr>i_item_type = Herd_buy, i_amount = cnt, i_value = price,
                               i_subtype = Some animal\<rparr>
                    else Some \<lparr>i_item_type = Herd_sell, i_amount = cnt, i_value = price,
                               i_subtype = Some animal\<rparr>
             | None \<Rightarrow>
                 let hasEggs = (re_match True re_has_eggs t \<noteq> None);
                     hasMilk = (re_match True re_has_milk t \<noteq> None)
                 in if \<not> hasEggs \<and> \<not> hasMilk then None
                    else
                      let ranchId = extractRanchId t;
                          nums = map number_of_digits (digit_runs t);
                          candidates =
                            (case ranchId of
                               None \<Rightarrow> nums
                             | Some rid \<Rightarrow>
                                 if rid = 0 then nums else filter (\<lambda>n. n \<noteq> rid) nums)
                      in if candidates = [] then None
                         else Some \<lparr>i_item_type = (if hasMilk then Milk else Eggs),
                                    i_amount = last candidates, i_value = Num 0,
                                    i_subtype = None\<rparr>))"

record parsed =
  p_discord_id :: "string option"
  p_actor :: "string option"
  p_ranch_id :: "int option"
  p_item_type :: item_type
  p_amount :: int
  p_value :: rat
  p_subtype :: "string option"

text \<open>\<^verbatim>\<open>item.value || 0\<close>: NaN and 0 both give 0. \<^verbatim>\<open>item.subtype || null\<close>:
  an empty text gives null.\<close>

definition or_null :: "string option \<Rightarrow> string option" where
  "or_null v = (case v of None \<Rightarrow> None | Some x \<Rightarrow> if x = [] then None else Some x)"

definition value_or_zero :: "number \<Rightarrow> rat" where
  "value_or_zero v = (case v of Num r \<Rightarrow> r | NaN \<Rightarrow> 0)"

definition parseGather :: "string \<Rightarrow> parsed option" where
  "parseGather text =
     (if text = [] then None
      else
        let discord_id = extractDiscordId text;
            actor = extractActorName text;
            ranch_id = extractRanchId text
        in case extractItemAndAmount text of
             None \<Rightarrow> None
           | Some item \<Rightarrow>
               if i_amount item = 0 \<or> i_amount item \<le> 0 then None
               else if i_amount item > 100000 then None
               else Some \<lparr>p_discord_id = discord_id, p_actor = actor, p_ranch_id = ranch_id,
                          p_item_type = i_item_type item, p_amount = i_amount item,
                          p_value = value_or_zero (i_value item),
                          p_subtype = or_null (i_subtype item)\<rparr>)"


section \<open>The ledger and its prepared statements\<close>

text \<open>
  A row of the table \<^verbatim>\<open>gathers\<close>; the list of rows is kept in insertion (rowid)
  order. The nullable columns are options. \<^verbatim>\<open>message_id\<close> is \<^verbatim>\<open>UNIQUE\<close>.
\<close>

record gather =
  g_ts :: int
  g_channel_id :: string
  g_message_id :: string
  g_discord_id :: "string option"
  g_ranch_id :: "int option"
  g_item_type :: item_type
  g_amount :: int
  g_value :: rat
  g_subtype :: "string option"

record schedule =
  s_weekday :: int
  s_hour :: int
  s_minute :: int

text \<open>
  The database: the rows of \<^verbatim>\<open>gathers\<close>, the ids in \<^verbatim>\<open>report_subscribers\<close>, and
  the two keys of \<^verbatim>\<open>meta\<close>. \<^verbatim>\<open>report_schedule\<close> holds the schedule that
  \<^verbatim>\<open>JSON.stringify\<close> wrote (\<open>None\<close>: no row); \<^verbatim>\<open>last_report_date\<close> holds a text
  or \<^verbatim>\<open>NULL\<close> (\<open>None\<close>: no row, or \<^verbatim>\<open>NULL\<close>). Reads and writes of the store are
  total in the model, except inside the weekly cycle, whose failing steps are an input.
\<close>

record state =
  gathers :: "gather list"
  report_subscribers :: "string list"
  meta_report_schedule :: "schedule option"
  meta_last_report_date :: "string option"

definition DUPLICATE_WINDOW_MS :: int where
  "DUPLICATE_WINDOW_MS = 10 * 1000"

definition DEFAULT_WEEKDAY :: int where "DEFAULT_WEEKDAY = 1"
definition DEFAULT_HOUR :: int where "DEFAULT_HOUR = 9"
definition DEFAULT_MINUTE :: int where "DEFAULT_MINUTE = 0"

text \<open>The \<^verbatim>\<open>WHERE\<close> clause of \<^verbatim>\<open>countRecentDuplicate\<close>. A comparison with
  \<^verbatim>\<open>NULL\<close> is not true in SQL, so \<^verbatim>\<open>discord_id = @discord_id\<close> needs both sides
  non-null.\<close>

definition duplicate_row ::
  "string \<Rightarrow> item_type \<Rightarrow> int \<Rightarrow> string option \<Rightarrow> int \<Rightarrow> gather \<Rightarrow> bool" where
  "duplicate_row channel ty amt did since_ts r =
     (g_channel_id r = channel
      \<and> g_item_type r = ty
      \<and> g_amount r = amt
      \<and> ((did = None \<and> g_discord_id r = None)
         \<or> (did \<noteq> None \<and> g_discord_id r \<noteq> None \<and> g_discord_id r = did))
      \<and> g_ts r \<ge> since_ts)"

definition countRecentDuplicate ::
  "string \<Rightarrow> item_type \<Rightarrow> int \<Rightarrow> string option \<Rightarrow> int \<Rightarrow> gather list \<Rightarrow> nat" where
  "countRecentDuplicate channel ty amt did since_ts rows =
     length (filter (duplicate_row channel ty amt did since_ts) rows)"

datatype db_error = Unique_constraint_failed

definition insertGather :: "gather \<Rightarrow> gather list \<Rightarrow> db_error + gather list" where
  "insertGather r rows =
     (if g_message_id r \<in> set (map g_message_id rows) then Inl Unique_constraint_failed
      else Inr (rows @ [r]))"

definition where_since :: "int option \<Rightarrow> gather \<Rightarrow> bool" where
  "where_since since_ts r = (case since_ts of None \<Rightarrow> True | Some t \<Rightarrow> g_ts r \<ge> t)"

definition where_ranch :: "int option \<Rightarrow> gather \<Rightarrow> bool" where
  "where_ranch ranch r = (case ranch of None \<Rightarrow> True | Some x \<Rightarrow> g_ranch_id r = Some x)"

definition sum_amount :: "item_type \<Rightarrow> gather list \<Rightarrow> int" where
  "sum_amount ty rows = sum_list (map g_amount (filter (\<lambda>r. g_item_type r = ty) rows))"

text \<open>
  \<^verbatim>\<open>SUM\<close> over the \<^verbatim>\<open>REAL\<close> column \<^verbatim>\<open>value\<close> is a floating-point sum that the
  engine computes; the model takes it as a parameter \<open>rsum\<close>, from an item type and the
  rows of a group to the total the engine reports. \<open>sum_value\<close> is the exact sum, with
  which the engine agrees where no rounding occurs.
\<close>

type_synonym real_sum = "item_type \<Rightarrow> gather list \<Rightarrow> rat"

definition sum_value :: real_sum where
  "sum_value ty rows = sum_list (map g_value (filter (\<lambda>r. g_item_type r = ty) rows))"

definition sumTotals :: "int option \<Rightarrow> int option \<Rightarrow> gather list \<Rightarrow> int \<times> int" where
  "sumTotals ranch since_ts rows =
     (let sel = filter (\<lambda>r. where_ranch ranch r \<and> where_since since_ts r) rows
      in (sum_amount Eggs sel, sum_amount Milk sel))"

record urow =
  u_discord_id :: string
  u_eggs :: int
  u_milk :: int
  u_herd_bought :: int
  u_herd_sold :: int
  u_herd_buy_cost :: rat
  u_herd_sell_revenue :: rat

definition group_row :: "real_sum \<Rightarrow> string \<Rightarrow> gather list \<Rightarrow> urow" where
  "group_row rsum u rows =
     \<lparr>u_discord_id = u,
      u_eggs = sum_amount Eggs rows,
      u_milk = sum_amount Milk rows,
      u_herd_bought = sum_amount Herd_buy rows,
      u_herd_sold = sum_amount Herd_sell rows,
      u_herd_buy_cost = rsum Herd_buy rows,
      u_herd_sell_revenue = rsum Herd_sell rows\<rparr>"

definition actor_ids :: "gather list \<Rightarrow> string list" where
  "actor_ids rows = concat (map (\<lambda>r. case g_discord_id r of None \<Rightarrow> [] | Some u \<Rightarrow> [u]) rows)"

text \<open>The \<^verbatim>\<open>WHERE\<close> clause of \<^verbatim>\<open>topUsers\<close> and \<^verbatim>\<open>weeklyPerUser\<close>.\<close>

definition topUsers_where :: "int option \<Rightarrow> int option \<Rightarrow> gather \<Rightarrow> bool" where
  "topUsers_where since_ts ranch r =
     (where_since since_ts r \<and> where_ranch ranch r \<and> g_discord_id r \<noteq> None)"

text \<open>
  \<^verbatim>\<open>GROUP BY discord_id\<close>: one aggregated row for each actor id among the selected
  rows. SQLite forms the groups in ascending order of the grouping column, here the
  bytewise order of the id texts, which is the order \<open>\<le>\<close> on \<^typ>\<open>string\<close>.
\<close>

definition topUsers_actors :: "int option \<Rightarrow> int option \<Rightarrow> gather list \<Rightarrow> string list" where
  "topUsers_actors since_ts ranch rows =
     sort (remdups (actor_ids (filter (topUsers_where since_ts ranch) rows)))"

definition topUsers_groups ::
  "real_sum \<Rightarrow> int option \<Rightarrow> int option \<Rightarrow> gather list \<Rightarrow> urow list" where
  "topUsers_groups rsum since_ts ranch rows =
     map (\<lambda>u. group_row rsum u
                 (filter (\<lambda>r. topUsers_where since_ts ranch r \<and> g_discord_id r = Some u) rows))
         (topUsers_actors since_ts ranch rows)"

definition items_total :: "urow \<Rightarrow> int" where
  "items_total r = u_eggs r + u_milk r"

text \<open>
  \<^verbatim>\<open>ORDER BY (eggs + milk) DESC LIMIT @limit\<close> names no second sort key. SQL leaves the
  order of rows with equal keys to the engine; SQLite keeps them in the order in which the
  groups were formed. \<open>sort_key\<close> is an insertion sort that keeps equal keys in their
  order.
\<close>

definition topUsers ::
  "real_sum \<Rightarrow> int option \<Rightarrow> int option \<Rightarrow> nat \<Rightarrow> gather list \<Rightarrow> urow list" where
  "topUsers rsum since_ts ranch lmt rows =
     take lmt (sort_key (\<lambda>r. - items_total r) (topUsers_groups rsum since_ts ranch rows))"

definition deleteSince :: "int \<Rightarrow> int option \<Rightarrow> gather list \<Rightarrow> gather list \<times> nat" where
  "deleteSince since_ts ranch rows =
     (let del = (\<lambda>r. g_ts r \<ge> since_ts \<and> where_ranch ranch r)
      in (filter (\<lambda>r. \<not> del r) rows, length (filter del rows)))"

section \<open>Time helpers and the schedule\<close>

text \<open>\<^verbatim>\<open>parseSinceToTs\<close>; \<open>now\<close> is \<^verbatim>\<open>Date.now()\<close>. Each product and the difference
  are doubles.\<close>

definition parseSinceToTs :: "int \<Rightarrow> string option \<Rightarrow> int option" where
  "parseSinceToTs now since =
     (case since of
        None \<Rightarrow> None
      | Some s \<Rightarrow>
          if s = [] then None
          else (case re_match True re_since (trim s) of
                  None \<Rightarrow> None
                | Some m \<Rightarrow>
                    let n = number_of_digits (grp m 1);
                        unit = toLowerCase (grp m 2);
                        ms = (if unit = ''h''
                              then to_double (to_double (to_double (n * 60) * 60) * 1000)
                              else to_double (to_double (to_double (to_double (n * 24) * 60)
                                     * 60) * 1000))
                    in Some (to_double (now - ms))))"

definition sevenDaysAgoTs :: "int \<Rightarrow> int" where
  "sevenDaysAgoTs now = now - 7 * 24 * 60 * 60 * 1000"

text \<open>What \<^verbatim>\<open>getTorontoDateParts\<close> reads from the clock: an input of the model.\<close>

record date_parts =
  d_year :: nat
  d_month :: nat
  d_day :: nat
  d_hour :: int
  d_minute :: int
  d_weekday :: int

definition isReportTime :: "date_parts \<Rightarrow> int \<Rightarrow> int \<Rightarrow> int \<Rightarrow> bool" where
  "isReportTime nowParts scheduledWeekday scheduledHour scheduledMinute =
     (d_weekday nowParts = scheduledWeekday \<and> d_hour nowParts = scheduledHour
      \<and> d_minute nowParts = scheduledMinute)"

definition getScheduleMeta :: "state \<Rightarrow> schedule" where
  "getScheduleMeta st =
     (case meta_report_schedule st of
        None \<Rightarrow> \<lparr>s_weekday = DEFAULT_WEEKDAY, s_hour = DEFAULT_HOUR, s_minute = DEFAULT_MINUTE\<rparr>
      | Some sch \<Rightarrow> sch)"

definition setScheduleMeta :: "int \<Rightarrow> int \<Rightarrow> int \<Rightarrow> state \<Rightarrow> state" where
  "setScheduleMeta weekday hour minute st =
     st\<lparr>meta_report_schedule := Some \<lparr>s_weekday = weekday, s_hour = hour, s_minute = minute\<rparr>\<rparr>"

text \<open>\<^verbatim>\<open>r && r.value ? r.value : null\<close>: no row, \<^verbatim>\<open>NULL\<close> and the empty text all
  read as null.\<close>

definition getLastReportDate :: "state \<Rightarrow> string option" where
  "getLastReportDate st =
     (case meta_last_report_date st of
        None \<Rightarrow> None
      | Some v \<Rightarrow> if v = [] then None else Some v)"

definition setLastReportDate :: "string option \<Rightarrow> state \<Rightarrow> state" where
  "setLastReportDate v st = st\<lparr>meta_last_report_date := v\<rparr>"

fun String_nat :: "nat \<Rightarrow> string" where
  "String_nat n =
     (if n < 10 then [''0123456789'' ! n]
      else String_nat (n div 10) @ [''0123456789'' ! (n mod 10)])"

declare String_nat.simps [simp del]

definition padStart2 :: "string \<Rightarrow> string" where
  "padStart2 s = replicate (2 - length s) CHR ''0'' @ s"

definition dateStr :: "date_parts \<Rightarrow> string" where
  "dateStr nowParts =
     String_nat (d_year nowParts) @ ''-'' @ padStart2 (String_nat (d_month nowParts))
       @ ''-'' @ padStart2 (String_nat (d_day nowParts))"


section \<open>The message listener\<close>

record embed =
  e_title :: string
  e_description :: string
  e_fields :: "(string \<times> string) list"

record message =
  m_channelId :: string
  m_id :: string
  m_content :: string
  m_embeds :: "embed list"

text \<open>The text that is parsed: the content, or, when the content is blank and there is
  an embed, the first embed's title, description and fields (a missing part reads as the
  empty text).\<close>

definition message_text :: "message \<Rightarrow> string" where
  "message_text message =
     (let text = m_content message
      in if (text = [] \<or> trim text = []) \<and> m_embeds message \<noteq> []
         then (case m_embeds message of
                 e # _ \<Rightarrow>
                   let fields = concat (map (\<lambda>(n, v). '' '' @ n @ '' '' @ v) (e_fields e))
                   in trim (e_title e @ '' '' @ e_description e @ '' '' @ fields)
               | [] \<Rightarrow> text)
         else text)"

datatype outcome =
    OTHER_CHANNEL
  | PARSE_FAIL
  | SKIP_UNKNOWN_ACTOR
  | SKIP_NO_MENTION
  | DUPLICATE_SKIPPED
  | UNIQUE_CONSTRAINT_IGNORED
  | LOGGED

text \<open>
  The \<^verbatim>\<open>messageCreate\<close> listener. \<open>now_check\<close> and \<open>now_insert\<close> are the two readings
  of \<^verbatim>\<open>Date.now()\<close>, for the duplicate window and for the stored timestamp. The
  \<^verbatim>\<open>catch\<close> that ignores "UNIQUE constraint failed" is the outcome
  \<open>UNIQUE_CONSTRAINT_IGNORED\<close>.
\<close>

definition messageCreate ::
  "string \<Rightarrow> int \<Rightarrow> int \<Rightarrow> message \<Rightarrow> state \<Rightarrow> outcome \<times> state" where
  "messageCreate listenChannelId now_check now_insert message st =
     (if m_channelId message \<noteq> listenChannelId then (OTHER_CHANNEL, st)
      else
        let text = message_text message in
        case parseGather text of
          None \<Rightarrow> (PARSE_FAIL, st)
        | Some parsed \<Rightarrow>
            if p_discord_id parsed = None \<or> p_discord_id parsed = Some []
            then (if (case p_actor parsed of
                        None \<Rightarrow> False
                      | Some a \<Rightarrow> a \<noteq> [] \<and> re_match True re_unknown (trim a) \<noteq> None)
                  then (SKIP_UNKNOWN_ACTOR, st)
                  else (SKIP_NO_MENTION, st))
            else
              let sinceTs = now_check - DUPLICATE_WINDOW_MS;
                  cnt = countRecentDuplicate (m_channelId message) (p_item_type parsed)
                          (p_amount parsed) (p_discord_id parsed) sinceTs (gathers st)
              in if cnt > 0 then (DUPLICATE_SKIPPED, st)
                 else
                   (case insertGather
                           \<lparr>g_ts = now_insert,
                            g_channel_id = m_channelId message,
                            g_message_id = m_id message,
                            g_discord_id = p_discord_id parsed,
                            g_ranch_id = p_ranch_id parsed,
                            g_item_type = p_item_type parsed,
                            g_amount = p_amount parsed,
                            g_value = p_value parsed,
                            g_subtype = or_null (p_subtype parsed)\<rparr>
                           (gathers st) of
                      Inl e \<Rightarrow> (UNIQUE_CONSTRAINT_IGNORED, st)
                    | Inr rows \<Rightarrow> (LOGGED, st\<lparr>gathers := rows\<rparr>)))"

section \<open>The weekly report and reset\<close>

text \<open>
  The steps of \<^verbatim>\<open>performWeeklyReportAndReset\<close> whose exception reaches its outer
  \<^verbatim>\<open>catch\<close> are the database statements: the aggregate queries, the list of
  subscribers, and the delete. Which of them throws, if any, is an input. A failed
  webhook post or direct message is caught where it happens and changes nothing else, so
  the model lists the deliveries attempted.
\<close>

datatype cycle_step = Aggregate | List_subscribers | Prune

record cycle_env =
  c_now :: int
  c_webhook :: "string option"
  c_db_fault :: "cycle_step option"

datatype delivery = Webhook_post nat | Direct_message string

datatype cycle_outcome = Reset_done nat | Skipped_reset | Cycle_error cycle_step

text \<open>The embeds go out in slices of at most 10: the sizes of the slices of \<open>n\<close>
  embeds.\<close>

definition batch_sizes :: "nat \<Rightarrow> nat list" where
  "batch_sizes n = map (\<lambda>i. min 10 (n - i)) (filter (\<lambda>i. i mod 10 = 0) [0 ..< n])"

definition prune_step ::
  "cycle_env \<Rightarrow> int \<Rightarrow> delivery list \<Rightarrow> state \<Rightarrow> cycle_outcome \<times> delivery list \<times> state" where
  "prune_step env since_ts sent st =
     (if c_db_fault env = Some Prune then (Cycle_error Prune, sent, st)
      else
        let (rows, deleted) = deleteSince since_ts None (gathers st)
        in (Reset_done deleted, sent, st\<lparr>gathers := rows\<rparr>))"

definition performWeeklyReportAndReset ::
  "cycle_env \<Rightarrow> state \<Rightarrow> cycle_outcome \<times> delivery list \<times> state" where
  "performWeeklyReportAndReset env st =
     (let since_ts = sevenDaysAgoTs (c_now env) in
      if c_db_fault env = Some Aggregate then (Cycle_error Aggregate, [], st)
      else
        let userRows = length (topUsers_actors (Some since_ts) None (gathers st));
            embeds = 1 + userRows
        in case c_webhook env of
             Some url \<Rightarrow> prune_step env since_ts (map Webhook_post (batch_sizes embeds)) st
           | None \<Rightarrow>
               if c_db_fault env = Some List_subscribers
               then (Cycle_error List_subscribers, [], st)
               else
                 let subs = report_subscribers st
                 in if subs = [] then (Skipped_reset, [], st)
                    else prune_step env since_ts (map Direct_message subs) st)"

section \<open>The scheduler\<close>

record tick_env =
  t_now :: date_parts
  t_cycle :: cycle_env

datatype tick_result =
    Not_report_time
  | Already_reported
  | Triggered cycle_outcome "delivery list"

text \<open>One run of the callback that \<^verbatim>\<open>startScheduler\<close> hands to \<^verbatim>\<open>setInterval\<close>.\<close>

definition scheduler_tick :: "tick_env \<Rightarrow> state \<Rightarrow> tick_result \<times> state" where
  "scheduler_tick env st =
     (let nowParts = t_now env;
          scheduleNow = getScheduleMeta st
      in if isReportTime nowParts (s_weekday scheduleNow) (s_hour scheduleNow)
              (s_minute scheduleNow)
         then
           let ds = dateStr nowParts;
               lst = getLastReportDate st
           in if lst = Some ds then (Already_reported, st)
              else
                let (oc, sent, st') = performWeeklyReportAndReset (t_cycle env) st
                in (Triggered oc sent, setLastReportDate (Some ds) st')
         else (Not_report_time, st))"

fun run_ticks :: "tick_env list \<Rightarrow> state \<Rightarrow> tick_result list \<times> state" where
  "run_ticks [] st = ([], st)"
| "run_ticks (e # es) st =
     (let (r, st') = scheduler_tick e st;
          (rs, st'') = run_ticks es st'
      in (r # rs, st''))"

fun is_triggered :: "tick_result \<Rightarrow> bool" where
  "is_triggered (Triggered oc sent) = True"
| "is_triggered r = False"

definition firings :: "tick_result list \<Rightarrow> nat" where
  "firings rs = length (filter is_triggered rs)"

section \<open>Slash commands\<close>

datatype reply =
    Totals_reply string int int
  | No_data_yet
  | Leaderboard_embeds "urow list"
  | Permission_denied
  | Invalid_arguments
  | Invalid_range
  | Schedule_updated int int int

text \<open>The command \<^verbatim>\<open>totals\<close>: the reply carries the second part of the title and
  the two sums.\<close>

definition cmd_totals :: "int \<Rightarrow> string option \<Rightarrow> state \<Rightarrow> reply" where
  "cmd_totals now since st =
     (let sinceTs = parseSinceToTs now since;
          (eggs, milk) = sumTotals None sinceTs (gathers st);
          title = (if sinceTs \<noteq> None \<and> sinceTs \<noteq> Some 0
                   then ''last '' @ (case since of Some s \<Rightarrow> s | None \<Rightarrow> ''null'')
                   else ''all-time'')
      in Totals_reply title eggs milk)"

text \<open>The command \<^verbatim>\<open>leaderboard\<close>:
  \<^verbatim>\<open>Math.max(1, Math.min(200, getInteger("limit") || 50))\<close>, then \<^verbatim>\<open>topUsers\<close>.\<close>

definition leaderboard_limit :: "int option \<Rightarrow> int" where
  "leaderboard_limit arg =
     max 1 (min 200 (case arg of None \<Rightarrow> 50 | Some n \<Rightarrow> if n = 0 then 50 else n))"

definition leaderboard_reply :: "urow list \<Rightarrow> reply" where
  "leaderboard_reply rows = (if rows = [] then No_data_yet else Leaderboard_embeds rows)"

definition leaderboard_rows ::
  "real_sum \<Rightarrow> int \<Rightarrow> string option \<Rightarrow> int option \<Rightarrow> state \<Rightarrow> urow list" where
  "leaderboard_rows rsum now since arg st =
     topUsers rsum (parseSinceToTs now since) None (nat (leaderboard_limit arg)) (gathers st)"

definition cmd_leaderboard ::
  "real_sum \<Rightarrow> int \<Rightarrow> string option \<Rightarrow> int option \<Rightarrow> state \<Rightarrow> reply" where
  "cmd_leaderboard rsum now since arg st = leaderboard_reply (leaderboard_rows rsum now since arg st)"

text \<open>The command \<^verbatim>\<open>set_report_schedule\<close>; \<open>allowed\<close> is the outcome of the
  permission check.\<close>

definition cmd_set_report_schedule ::
  "bool \<Rightarrow> int option \<Rightarrow> int option \<Rightarrow> int option \<Rightarrow> state \<Rightarrow> reply \<times> state" where
  "cmd_set_report_schedule allowed weekday hour minute st =
     (if \<not> allowed then (Permission_denied, st)
      else case (weekday, hour, minute) of
             (Some w, Some h, Some m) \<Rightarrow>
               if w < 0 \<or> w > 6 \<or> h < 0 \<or> h > 23 \<or> m < 0 \<or> m > 59 then (Invalid_range, st)
               else (Schedule_updated w h m, setLastReportDate None (setScheduleMeta w h m st))
           | _ \<Rightarrow> (Invalid_arguments, st))"


section \<open>Example inputs\<close>

definition ex_row :: "int \<Rightarrow> string \<Rightarrow> string \<Rightarrow> item_type \<Rightarrow> int \<Rightarrow> gather" where
  "ex_row t mid did ty amt =
     \<lparr>g_ts = t, g_channel_id = ''chan'', g_message_id = mid, g_discord_id = Some did,
      g_ranch_id = None, g_item_type = ty, g_amount = amt, g_value = 0, g_subtype = None\<rparr>"

definition ex_state :: state where
  "ex_state = \<lparr>gathers = [ex_row 1000 ''m1'' ''111111111111111111'' Eggs 5],
               report_subscribers = [], meta_report_schedule = None,
               meta_last_report_date = None\<rparr>"

definition ex_marked :: state where
  "ex_marked = ex_state\<lparr>meta_last_report_date := Some ''2024-01-01''\<rparr>"

definition ex_monday_9 :: date_parts where
  "ex_monday_9 =
     \<lparr>d_year = 2024, d_month = 1, d_day = 1, d_hour = 9, d_minute = 0, d_weekday = 1\<rparr>"

definition ex_tick :: "string option \<Rightarrow> cycle_step option \<Rightarrow> tick_env" where
  "ex_tick hook fault =
     \<lparr>t_now = ex_monday_9, t_cycle = \<lparr>c_now = 2000, c_webhook = hook, c_db_fault = fault\<rparr>\<rparr>"

definition ex_empty :: state where
  "ex_empty = \<lparr>gathers = [], report_subscribers = [], meta_report_schedule = None,
               meta_last_report_date = None\<rparr>"

definition ex_msg :: "string \<Rightarrow> string \<Rightarrow> message" where
  "ex_msg mid text = \<lparr>m_channelId = ''chan'', m_id = mid, m_content = text, m_embeds = []\<rparr>"

definition ex_logged :: "int \<Rightarrow> state" where
  "ex_logged T =
     ex_empty\<lparr>gathers :=
       [\<lparr>g_ts = T, g_channel_id = ''chan'', g_message_id = ''m1'',
         g_discord_id = Some ''123456789012345678'', g_ranch_id = None, g_item_type = Eggs,
         g_amount = 5, g_value = 0, g_subtype = None\<rparr>]\<rparr>"

section \<open>The fallback rule as the specification words it\<close>

text \<open>
  The fallback rule in the words of the specification, for comparison with the code:
  collect all integers in the text, discard one equal to the extracted ranch id if
  present, take the last remaining integer as the amount; milk if "milk" appears, else
  eggs.
\<close>

definition spec_fallback :: "string \<Rightarrow> item option" where
  "spec_fallback t =
     (let nums = map number_of_digits (digit_runs t);
          remaining = (case extractRanchId t of None \<Rightarrow> nums | Some rid \<Rightarrow> remove1 rid nums)
      in if remaining = [] then None
         else Some \<lparr>i_item_type = (if re_match True re_has_milk t \<noteq> None then Milk else Eggs),
                    i_amount = last remaining, i_value = Num 0, i_subtype = None\<rparr>)"

section \<open>The leaderboard order as the specification words it\<close>

text \<open>
  The order of the specification, for comparison with the code: descending by
  \<open>eggs + milk\<close>, equal totals in the order in which the actors are first seen in the
  ledger.
\<close>

definition first_seen :: "'a list \<Rightarrow> 'a list" where
  "first_seen xs = rev (remdups (rev xs))"

definition spec_topUsers ::
  "real_sum \<Rightarrow> int option \<Rightarrow> int option \<Rightarrow> nat \<Rightarrow> gather list \<Rightarrow> urow list" where
  "spec_topUsers rsum since_ts ranch lmt rows =
     take lmt
       (sort_key (\<lambda>r. - items_total r)
          (map (\<lambda>u. group_row rsum u
                      (filter (\<lambda>r. topUsers_where since_ts ranch r \<and> g_discord_id r = Some u)
                         rows))
               (first_seen (actor_ids (filter (topUsers_where since_ts ranch) rows)))))"

text \<open>The actors of the selected rows of a ledger, and the \<open>eggs + milk\<close> of one of
  them, read off the ledger.\<close>

definition ledger_actors :: "int option \<Rightarrow> gather list \<Rightarrow> string set" where
  "ledger_actors since_ts rows =
     {u. \<exists>g \<in> set rows. where_since since_ts g \<and> g_discord_id g = Some u}"

definition actor_items :: "int option \<Rightarrow> gather list \<Rightarrow> string \<Rightarrow> int" where
  "actor_items since_ts rows u =
     sum_list (map g_amount
       (filter (\<lambda>g. where_since since_ts g \<and> g_discord_id g = Some u
                     \<and> (g_item_type g = Eggs \<or> g_item_type g = Milk)) rows))"

text \<open>The order of the rows that \<open>topUsers\<close> returns: descending totals, equal totals
  in ascending order of the actor id.\<close>

definition board_order :: "urow \<Rightarrow> urow \<Rightarrow> bool" where
  "board_order a b \<longleftrightarrow>
     items_total b < items_total a
     \<or> (items_total b = items_total a \<and> u_discord_id a < u_discord_id b)"

section \<open>Example ledger for the leaderboard\<close>

text \<open>The actor 222... is seen first, 111... second, both with 5 items; 333... is seen
  last, with 9.\<close>

definition ex_board :: state where
  "ex_board =
     ex_empty\<lparr>gathers :=
       [ex_row 1000 ''m1'' ''222222222222222222'' Eggs 5,
        ex_row 2000 ''m2'' ''111111111111111111'' Milk 5,
        ex_row 3000 ''m3'' ''333333333333333333'' Eggs 9]\<rparr>"

definition ex_urow :: "string \<Rightarrow> int \<Rightarrow> int \<Rightarrow> urow" where
  "ex_urow u e m =
     \<lparr>u_discord_id = u, u_eggs = e, u_milk = m, u_herd_bought = 0, u_herd_sold = 0,
      u_herd_buy_cost = 0, u_herd_sell_revenue = 0\<rparr>"

section \<open>Facts about the matcher\<close>

lemma lit_prefix_split:
  "lit_prefix ic l xs = Some (m, rest) \<Longrightarrow> xs = m @ rest \<and> length m = length l"
proof (induction ic l xs arbitrary: m rest rule: lit_prefix.induct)
  case (1 ic xs)
  then show ?case by simp
next
  case (2 ic l ls)
  then show ?case by simp
next
  case (3 ic l ls x xs)
  then show ?case by (auto split: if_splits option.splits)
qed

lemma lit_prefix_exact:
  "lit_prefix False l xs = Some (m, rest) \<Longrightarrow> m = l"
proof (induction "False" l xs arbitrary: m rest rule: lit_prefix.induct)
  case (1 xs)
  then show ?case by simp
next
  case (2 l ls)
  then show ?case by simp
next
  case (3 l ls x xs)
  then show ?case by (auto simp: char_eq_def split: if_splits option.splits)
qed

lemma class_splits_run:
  "(m, rest) \<in> set (class_splits k hi acc xs) \<Longrightarrow>
     \<exists>run. m = acc @ run \<and> xs = run @ rest \<and> list_all (in_cls k) run
           \<and> (case hi of None \<Rightarrow> True | Some h \<Rightarrow> length run \<le> h)"
proof (induction k hi acc xs rule: class_splits.induct)
  case (1 k hi acc)
  then show ?case by (auto split: option.splits)
next
  case (2 k hi acc x xs)
  from "2.prems" consider (here) "m = acc" "rest = x # xs"
    | (more) "in_cls k x" "hi \<noteq> Some 0"
        "(m, rest) \<in> set (class_splits k (map_option (\<lambda>h. h - 1) hi) (acc @ [x]) xs)"
    by (auto split: if_splits)
  then show ?case
  proof cases
    case here
    then show ?thesis by (auto split: option.splits)
  next
    case more
    from "2.IH" [OF _ more(3)] more(1,2) obtain run where
      r: "m = (acc @ [x]) @ run" "xs = run @ rest" "list_all (in_cls k) run"
         "(case map_option (\<lambda>h. h - 1) hi of None \<Rightarrow> True | Some h \<Rightarrow> length run \<le> h)"
      by auto
    have "m = acc @ (x # run)" using r(1) by simp
    moreover have "x # xs = (x # run) @ rest" using r(2) by simp
    moreover have "list_all (in_cls k) (x # run)" using r(3) more(1) by simp
    moreover have "(case hi of None \<Rightarrow> True | Some h \<Rightarrow> length (x # run) \<le> h)"
      using r(4) more(2) by (cases hi) auto
    ultimately show ?thesis by blast
  qed
qed

lemma rmatch_Lit_mem:
  "(m, st') \<in> set (rmatch ic (Lit l) (b, xs, c)) \<longleftrightarrow>
     (\<exists>rest. lit_prefix ic l xs = Some (m, rest) \<and> st' = (prev_after b m, rest, c))"
  by (auto split: option.splits)

lemma rmatch_Rep_mem:
  "(m, st') \<in> set (rmatch ic (Rep k lo hi) (b, xs, c)) \<longleftrightarrow>
     (\<exists>rest. (m, rest) \<in> set (class_splits k hi [] xs) \<and> lo \<le> length m
             \<and> st' = (prev_after b m, rest, c))"
  by auto

lemma rmatch_Seq_mem:
  "(m, st') \<in> set (rmatch ic (Seq r1 r2) st) \<longleftrightarrow>
     (\<exists>m1 st1 m2. (m1, st1) \<in> set (rmatch ic r1 st) \<and> (m2, st') \<in> set (rmatch ic r2 st1)
                  \<and> m = m1 @ m2)"
  by force

lemma rmatch_Grp_mem:
  "(m, st') \<in> set (rmatch ic (Grp i r) st) \<longleftrightarrow>
     (\<exists>b' xs' c'. (m, (b', xs', c')) \<in> set (rmatch ic r st) \<and> st' = (b', xs', (i, m) # c'))"
  by force

lemma rmatch_prefix:
  "(m, (b', xs', c')) \<in> set (rmatch ic r (b, xs, c)) \<Longrightarrow> xs = m @ xs'"
proof (induction r arbitrary: m b' xs' c' b xs c)
  case Eps
  then show ?case by simp
next
  case (Lit l)
  then show ?case unfolding rmatch_Lit_mem by (auto dest: lit_prefix_split)
next
  case (Rep k lo hi)
  then show ?case unfolding rmatch_Rep_mem by (auto dest: class_splits_run)
next
  case (Seq r1 r2)
  from Seq.prems obtain m1 b1 xs1 c1 m2 where
    a: "(m1, (b1, xs1, c1)) \<in> set (rmatch ic r1 (b, xs, c))"
    and b: "(m2, (b', xs', c')) \<in> set (rmatch ic r2 (b1, xs1, c1))"
    and m: "m = m1 @ m2"
    unfolding rmatch_Seq_mem by auto
  from Seq.IH(1) [OF a] Seq.IH(2) [OF b] m show ?case by simp
next
  case (Alt r1 r2)
  then show ?case by auto
next
  case (Grp i r)
  then show ?case unfolding rmatch_Grp_mem by auto
next
  case Word_b
  then show ?case by (auto split: if_splits)
next
  case Bol
  then show ?case by (auto split: if_splits)
next
  case Eol
  then show ?case by (auto split: if_splits)
qed

lemma search_Some:
  "search ic r b s = Some c \<Longrightarrow>
     \<exists>pre rest b' m b'' xs''. s = pre @ rest
        \<and> (m, (b'', xs'', c)) \<in> set (rmatch ic r (b', rest, []))"
proof (induction ic r b s rule: search.induct)
  case (1 ic r b)
  then obtain m b'' xs'' tl where "rmatch ic r (b, [], []) = (m, (b'', xs'', c)) # tl"
    by (auto split: list.splits)
  then have "(m, (b'', xs'', c)) \<in> set (rmatch ic r (b, [], []))" by simp
  then show ?case by (metis append_Nil)
next
  case (2 ic r b x xs)
  show ?case
  proof (cases "rmatch ic r (b, x # xs, [])")
    case Nil
    with "2.prems" have "search ic r (Some x) xs = Some c" by simp
    from "2.IH" [OF Nil this] obtain pre rest b' m b'' xs'' where
      "xs = pre @ rest" "(m, (b'', xs'', c)) \<in> set (rmatch ic r (b', rest, []))" by blast
    then have "x # xs = (x # pre) @ rest" by simp
    with \<open>(m, (b'', xs'', c)) \<in> set (rmatch ic r (b', rest, []))\<close> show ?thesis by blast
  next
    case (Cons a tl)
    with "2.prems" obtain m b'' xs'' where "a = (m, (b'', xs'', c))"
      by (auto split: prod.splits)
    with Cons have "(m, (b'', xs'', c)) \<in> set (rmatch ic r (b, x # xs, []))" by simp
    then show ?thesis by (metis append_Nil)
  qed
qed

lemma mention_match:
  assumes "(m, (b', xs', c')) \<in> set (rmatch False re_mention (b, xs, []))"
  shows "\<exists>d. c' = [(1, d)] \<and> 17 \<le> length d \<and> length d \<le> 20 \<and> list_all is_digit d
             \<and> (m = ''<@'' @ d @ ''>'' \<or> m = ''<@!'' @ d @ ''>'')"
proof -
  have re: "re_mention = Seq (Lit ''<@'') (Seq (opt (Lit ''!''))
              (Seq (Grp 1 (Rep Digit 17 (Some 20))) (Seq (Lit ''>'') Eps)))"
    by (simp add: re_mention_def seqs_def)
  from assms obtain m1 st1 r1 where
    s1: "(m1, st1) \<in> set (rmatch False (Lit ''<@'') (b, xs, []))"
    and t1: "(r1, (b', xs', c')) \<in> set (rmatch False (Seq (opt (Lit ''!''))
              (Seq (Grp 1 (Rep Digit 17 (Some 20))) (Seq (Lit ''>'') Eps))) st1)"
    and m: "m = m1 @ r1"
    unfolding re rmatch_Seq_mem [of _ _ _ "Lit ''<@''"] by blast
  from t1 obtain m2 st2 r2 where
    s2: "(m2, st2) \<in> set (rmatch False (opt (Lit ''!'')) st1)"
    and t2: "(r2, (b', xs', c')) \<in> set (rmatch False
              (Seq (Grp 1 (Rep Digit 17 (Some 20))) (Seq (Lit ''>'') Eps)) st2)"
    and r1: "r1 = m2 @ r2"
    unfolding rmatch_Seq_mem [of _ _ _ "opt (Lit ''!'')"] by blast
  from t2 obtain m3 st3 r3 where
    s3: "(m3, st3) \<in> set (rmatch False (Grp 1 (Rep Digit 17 (Some 20))) st2)"
    and t3: "(r3, (b', xs', c')) \<in> set (rmatch False (Seq (Lit ''>'') Eps) st3)"
    and r2: "r2 = m3 @ r3"
    unfolding rmatch_Seq_mem [of _ _ _ "Grp 1 (Rep Digit 17 (Some 20))"] by blast
  from t3 have s4: "(r3, (b', xs', c')) \<in> set (rmatch False (Lit ''>'') st3)"
    by (force simp: rmatch_Seq_mem)
  obtain b1 x1 c1 where st1: "st1 = (b1, x1, c1)" by (cases st1)
  obtain b2 x2 c2 where st2: "st2 = (b2, x2, c2)" by (cases st2)
  obtain b3 x3 c3 where st3: "st3 = (b3, x3, c3)" by (cases st3)
  from s1 have m1: "m1 = ''<@''" and c1: "c1 = []"
    unfolding st1 rmatch_Lit_mem by (auto dest: lit_prefix_exact)
  from s2 have m2: "m2 = ''!'' \<or> m2 = []" and c2: "c2 = c1"
    unfolding st1 st2 opt_def by (auto simp: rmatch_Lit_mem dest: lit_prefix_exact lit_prefix_exact [OF sym] split: option.splits)
  from s3 obtain rest where cs: "(m3, rest) \<in> set (class_splits Digit (Some 20) [] x2)"
    and len: "17 \<le> length m3" and c3: "c3 = (1, m3) # c2"
    unfolding st2 st3 rmatch_Grp_mem rmatch_Rep_mem by auto
  from class_splits_run [OF cs] have d: "list_all is_digit m3" "length m3 \<le> 20"
    by (auto simp: list_all_iff)
  from s4 have m4: "r3 = ''>''" and c4: "c' = c3"
    unfolding st3 rmatch_Lit_mem by (auto dest: lit_prefix_exact)
  from m r1 r2 m1 m2 m4 have "m = ''<@'' @ m3 @ ''>'' \<or> m = ''<@!'' @ m3 @ ''>''" by auto
  with c4 c3 c2 c1 len d show ?thesis by auto
qed

lemma extractDiscordId_Some:
  assumes "extractDiscordId text = Some d"
  shows "17 \<le> length d \<and> length d \<le> 20 \<and> list_all is_digit d
         \<and> (\<exists>pre post. text = pre @ ''<@'' @ d @ ''>'' @ post
                       \<or> text = pre @ ''<@!'' @ d @ ''>'' @ post)"
proof -
  from assms obtain c where s: "search False re_mention None text = Some c" and d: "d = grp c 1"
    by (auto simp: extractDiscordId_def re_match_def split: if_splits option.splits)
  from search_Some [OF s] obtain pre rest b' m b'' xs'' where
    t: "text = pre @ rest" and r: "(m, (b'', xs'', c)) \<in> set (rmatch False re_mention (b', rest, []))"
    by blast
  from rmatch_prefix [OF r] have rest: "rest = m @ xs''" .
  from mention_match [OF r] obtain d' where
    c: "c = [(1, d')]" and p: "17 \<le> length d'" "length d' \<le> 20" "list_all is_digit d'"
    and m: "m = ''<@'' @ d' @ ''>'' \<or> m = ''<@!'' @ d' @ ''>''" by blast
  from c d have dd: "d = d'" by (simp add: grp_def)
  from t rest m dd have "text = pre @ ''<@'' @ d @ ''>'' @ xs'' \<or> text = pre @ ''<@!'' @ d @ ''>'' @ xs''"
    by auto
  with p dd show ?thesis by blast
qed

section \<open>Evaluated parses\<close>

lemma extract_item_empty: "extractItemAndAmount [] = None"
  by (simp add: extractItemAndAmount_def)

lemma parse_eggs:
  "parseGather ''<@123456789012345678> collected 5 eggs''
     = Some \<lparr>p_discord_id = Some ''123456789012345678'', p_actor = None, p_ranch_id = None,
             p_item_type = Eggs, p_amount = 5, p_value = 0, p_subtype = None\<rparr>"
  by code_simp

section \<open>Facts about the scheduler\<close>

lemma dateStr_nonempty: "dateStr p \<noteq> []"
  by (simp add: dateStr_def)

lemma cycle_keeps_meta:
  "performWeeklyReportAndReset env st = (oc, sent, st') \<Longrightarrow>
     meta_last_report_date st' = meta_last_report_date st
     \<and> meta_report_schedule st' = meta_report_schedule st
     \<and> report_subscribers st' = report_subscribers st"
  by (auto simp: performWeeklyReportAndReset_def prune_step_def Let_def
           split: if_splits option.splits prod.splits)

lemma getLastReportDate_set:
  "getLastReportDate (setLastReportDate (Some (dateStr p)) st) = Some (dateStr p)"
  by (simp add: getLastReportDate_def setLastReportDate_def dateStr_nonempty)

lemma getScheduleMeta_set:
  "getScheduleMeta (setLastReportDate v st) = getScheduleMeta st"
  by (simp add: getScheduleMeta_def setLastReportDate_def)

lemma getScheduleMeta_cycle:
  "performWeeklyReportAndReset env st = (oc, sent, st') \<Longrightarrow>
     getScheduleMeta st' = getScheduleMeta st"
  by (drule cycle_keeps_meta) (simp add: getScheduleMeta_def)

lemma tick_cases:
  "scheduler_tick env st = (r, st') \<Longrightarrow>
     (\<not> is_triggered r \<and> st' = st)
     \<or> (is_triggered r \<and> getLastReportDate st \<noteq> Some (dateStr (t_now env))
         \<and> getLastReportDate st' = Some (dateStr (t_now env)))"
  by (auto simp: scheduler_tick_def Let_def getLastReportDate_set
           split: if_splits prod.splits)

lemma tick_schedule:
  "scheduler_tick env st = (r, st') \<Longrightarrow> getScheduleMeta st' = getScheduleMeta st"
  by (auto simp: scheduler_tick_def Let_def getScheduleMeta_set getScheduleMeta_cycle
           split: if_splits prod.splits)

lemma tick_marked:
  "getLastReportDate st = Some (dateStr (t_now env)) \<Longrightarrow>
     \<not> is_triggered (fst (scheduler_tick env st)) \<and> snd (scheduler_tick env st) = st"
  by (auto simp: scheduler_tick_def Let_def split: if_splits prod.splits)

lemma run_ticks_marked:
  "getLastReportDate st = Some ds \<Longrightarrow> \<forall>e \<in> set es. dateStr (t_now e) = ds \<Longrightarrow>
     firings (fst (run_ticks es st)) = 0 \<and> snd (run_ticks es st) = st"
proof (induction es)
  case Nil
  then show ?case by (simp add: firings_def)
next
  case (Cons e es)
  from Cons.prems have m: "getLastReportDate st = Some (dateStr (t_now e))" by simp
  from tick_marked [OF m] obtain r where r: "scheduler_tick e st = (r, st)" "\<not> is_triggered r"
    by (cases "scheduler_tick e st") auto
  from Cons have ih: "firings (fst (run_ticks es st)) = 0 \<and> snd (run_ticks es st) = st"
    by simp
  show ?case using r ih by (auto simp: firings_def split: prod.splits)
qed

lemma run_ticks_once:
  "\<forall>e \<in> set es. dateStr (t_now e) = ds \<Longrightarrow> firings (fst (run_ticks es st)) \<le> 1"
proof (induction es arbitrary: st)
  case Nil
  then show ?case by (simp add: firings_def)
next
  case (Cons e es)
  obtain r st' where t: "scheduler_tick e st = (r, st')"
    by (cases "scheduler_tick e st")
  from Cons.prems have d: "dateStr (t_now e) = ds"
    and rest: "\<forall>e \<in> set es. dateStr (t_now e) = ds" by simp_all
  show ?case
  proof (cases "is_triggered r")
    case True
    with tick_cases [OF t] d have "getLastReportDate st' = Some ds" by auto
    from run_ticks_marked [OF this rest] have "firings (fst (run_ticks es st')) = 0"
      by simp
    with t True show ?thesis by (auto simp: firings_def split: prod.splits)
  next
    case False
    from Cons.IH [OF rest, of st'] have "firings (fst (run_ticks es st')) \<le> 1" .
    with t False show ?thesis by (auto simp: firings_def split: prod.splits)
  qed
qed


section \<open>Facts about the handlers, and evaluated inputs\<close>

lemma near_ex:
  "re_match True re_near (trim (collapse_ws ''bought 5 Bison for $300 and 2 Eggs''))
     = Some [(2, ''Eggs''), (1, ''2'')]"
  by code_simp

lemma herd_ex:
  "re_match True re_near (trim (collapse_ws ''Sold 12  LONGHORN for $1,960.50'')) = None
   \<and> re_match True re_herd (trim (collapse_ws ''Sold 12  LONGHORN for $1,960.50''))
       = Some [(4, ''1,960.50''), (3, ''LONGHORN''), (2, ''12''), (1, ''Sold'')]"
  by code_simp

lemma count_duplicates_pos:
  "0 < countRecentDuplicate ch ty amt did since rows \<longleftrightarrow>
     (\<exists>r \<in> set rows. g_channel_id r = ch \<and> g_item_type r = ty \<and> g_amount r = amt
                      \<and> g_discord_id r = did \<and> since \<le> g_ts r)"
proof -
  have "0 < countRecentDuplicate ch ty amt did since rows \<longleftrightarrow>
          (\<exists>r \<in> set rows. duplicate_row ch ty amt did since r)"
    by (simp add: countRecentDuplicate_def filter_empty_conv)
  also have "\<dots> \<longleftrightarrow> (\<exists>r \<in> set rows. g_channel_id r = ch \<and> g_item_type r = ty
                      \<and> g_amount r = amt \<and> g_discord_id r = did \<and> since \<le> g_ts r)"
    by (cases did) (auto simp: duplicate_row_def)
  finally show ?thesis .
qed

lemma ex_msg_text:
  "message_text (ex_msg mid ''<@123456789012345678> collected 5 eggs'')
     = ''<@123456789012345678> collected 5 eggs''"
  by (simp add: message_text_def ex_msg_def)

lemma messageCreate_cases:
  "messageCreate listen now now' msg st = (oc, st') \<Longrightarrow>
     (oc \<noteq> LOGGED \<and> st' = st)
     \<or> (oc = LOGGED \<and> (\<exists>p d r. parseGather (message_text msg) = Some p
            \<and> p_discord_id p = Some d \<and> g_discord_id r = Some d
            \<and> gathers st' = gathers st @ [r]))"
  by (auto simp: messageCreate_def Let_def insertGather_def
           split: if_splits option.splits sum.splits)

lemma parseGather_discord_id:
  "parseGather text = Some p \<Longrightarrow> p_discord_id p = extractDiscordId text"
  by (auto simp: parseGather_def Let_def split: if_splits option.splits)

lemma parse_unknown:
  "parseGather ''[Unknown] collected 5 eggs''
     = Some \<lparr>p_discord_id = None, p_actor = Some ''Unknown'', p_ranch_id = None,
             p_item_type = Eggs, p_amount = 5, p_value = 0, p_subtype = None\<rparr>"
  by code_simp

lemma parse_named:
  "parseGather ''Bob | collected 5 eggs''
     = Some \<lparr>p_discord_id = None, p_actor = Some ''Bob'', p_ranch_id = None,
             p_item_type = Eggs, p_amount = 5, p_value = 0, p_subtype = None\<rparr>"
  by code_simp

lemma unknown_matches:
  "re_match True re_unknown (trim ''Unknown'') \<noteq> None \<and> re_match True re_unknown (trim ''Bob'') = None"
  by code_simp

lemma mention_absent:
  "extractDiscordId ''[Unknown] collected 5 eggs'' = None
   \<and> extractDiscordId ''Bob | collected 5 eggs'' = None"
  by code_simp

lemma ex_msg_plain: "message_text (ex_msg mid text) = text"
  by (simp add: message_text_def ex_msg_def)

lemma skip_unknown:
  "messageCreate ''chan'' 6000 6000 (ex_msg ''m5'' ''[Unknown] collected 5 eggs'') (ex_logged 1000)
     = (SKIP_UNKNOWN_ACTOR, ex_logged 1000)"
  using unknown_matches
  by (simp add: messageCreate_def ex_msg_plain parse_unknown Let_def) (simp add: ex_msg_def)

lemma skip_no_mention:
  "messageCreate ''chan'' 6000 6000 (ex_msg ''m6'' ''Bob | collected 5 eggs'') (ex_logged 1000)
     = (SKIP_NO_MENTION, ex_logged 1000)"
  using unknown_matches
  by (simp add: messageCreate_def ex_msg_plain parse_named Let_def) (simp add: ex_msg_def)

lemma logged_first:
  "fst (messageCreate ''chan'' 1000 1000
          (ex_msg ''m1'' ''<@123456789012345678> collected 5 eggs'') ex_empty) = LOGGED"
  by (simp add: messageCreate_def ex_msg_plain parse_eggs Let_def countRecentDuplicate_def
        insertGather_def)
     (simp add: ex_msg_def ex_empty_def)

lemma fallback_ex:
  "trim (collapse_ws ''ranch 12 | milk: 40 | 12'') = ''ranch 12 | milk: 40 | 12''
   \<and> re_match True re_near ''ranch 12 | milk: 40 | 12'' = None
   \<and> re_match True re_herd ''ranch 12 | milk: 40 | 12'' = None
   \<and> re_match True re_has_milk ''ranch 12 | milk: 40 | 12'' \<noteq> None
   \<and> extractRanchId ''ranch 12 | milk: 40 | 12'' = Some 12
   \<and> map number_of_digits (digit_runs ''ranch 12 | milk: 40 | 12'') = [12, 40, 12]"
  by code_simp

lemma parseSince_malformed:
  "s = [] \<or> re_match True re_since (trim s) = None \<Longrightarrow> parseSinceToTs now (Some s) = None"
  by (auto simp: parseSinceToTs_def)

lemma since_days_malformed: "re_match True re_since (trim ''7 days'') = None"
  by code_simp

lemma fallback_big_ex:
  "trim (collapse_ws ''eggs 9007199254740993 ranch 9007199254740992'')
     = ''eggs 9007199254740993 ranch 9007199254740992''
   \<and> re_match True re_near ''eggs 9007199254740993 ranch 9007199254740992'' = None
   \<and> re_match True re_herd ''eggs 9007199254740993 ranch 9007199254740992'' = None
   \<and> re_match True re_has_eggs ''eggs 9007199254740993 ranch 9007199254740992'' \<noteq> None
   \<and> extractRanchId ''eggs 9007199254740993 ranch 9007199254740992'' = Some 9007199254740992
   \<and> map number_of_digits (digit_runs ''eggs 9007199254740993 ranch 9007199254740992'')
       = [9007199254740992, 9007199254740992]"
  by code_simp

lemma big_number_logged:
  "parseGather ''<@123456789012345678> eggs 7 9007199254740993 ranch 9007199254740992''
     = Some \<lparr>p_discord_id = Some ''123456789012345678'', p_actor = None,
             p_ranch_id = Some 9007199254740992, p_item_type = Eggs, p_amount = 7,
             p_value = 0, p_subtype = None\<rparr>"
  by code_simp

section \<open>Facts about the leaderboard query\<close>

lemma actor_ids_set: "u \<in> set (actor_ids rows) \<longleftrightarrow> (\<exists>r \<in> set rows. g_discord_id r = Some u)"
  by (induction rows) (auto simp: actor_ids_def split: option.splits)

lemma topUsers_actors_set:
  "set (topUsers_actors since None rows) = ledger_actors since rows"
  by (fastforce simp: topUsers_actors_def ledger_actors_def actor_ids_set topUsers_where_def
        where_ranch_def)

lemma topUsers_actors_strict: "sorted_wrt (<) (topUsers_actors since ranch rows)"
  by (simp add: topUsers_actors_def strict_sorted_iff)

lemma topUsers_actors_length:
  "length (topUsers_actors since None rows) = card (ledger_actors since rows)"
proof -
  have "distinct (topUsers_actors since None rows)" by (simp add: topUsers_actors_def)
  then have "card (set (topUsers_actors since None rows)) = length (topUsers_actors since None rows)"
    by (rule distinct_card)
  then show ?thesis by (simp add: topUsers_actors_set)
qed

lemma group_row_id: "u_discord_id (group_row rsum u rows) = u"
  by (simp add: group_row_def)

lemma sum_two_types:
  "sum_amount Eggs (filter P rows) + sum_amount Milk (filter P rows)
     = sum_list (map g_amount
         (filter (\<lambda>g. P g \<and> (g_item_type g = Eggs \<or> g_item_type g = Milk)) rows))"
  by (induction rows) (auto simp: sum_amount_def)

lemma group_row_items:
  "items_total (group_row rsum u
      (filter (\<lambda>r. topUsers_where since None r \<and> g_discord_id r = Some u) rows))
     = actor_items since rows u"
proof -
  have "(\<lambda>r. topUsers_where since None r \<and> g_discord_id r = Some u)
          = (\<lambda>g. where_since since g \<and> g_discord_id g = Some u)"
    by (auto simp: topUsers_where_def where_ranch_def)
  then show ?thesis
    by (simp add: items_total_def group_row_def sum_two_types actor_items_def)
qed

lemma groups_ids:
  "map u_discord_id (topUsers_groups rsum since ranch rows) = topUsers_actors since ranch rows"
  by (simp add: topUsers_groups_def comp_def group_row_id)

lemma groups_member:
  assumes "r \<in> set (topUsers_groups rsum since None rows)"
  shows "u_discord_id r \<in> ledger_actors since rows
         \<and> r = group_row rsum (u_discord_id r)
                 (filter (\<lambda>g. topUsers_where since None g \<and> g_discord_id g = Some (u_discord_id r))
                    rows)
         \<and> items_total r = actor_items since rows (u_discord_id r)"
proof -
  from assms obtain u where u: "u \<in> set (topUsers_actors since None rows)"
    and r: "r = group_row rsum u
                 (filter (\<lambda>g. topUsers_where since None g \<and> g_discord_id g = Some u) rows)"
    by (auto simp: topUsers_groups_def)
  from r have id: "u_discord_id r = u" by (simp add: group_row_id)
  from u have a: "u \<in> ledger_actors since rows" by (simp add: topUsers_actors_set)
  have "items_total r = actor_items since rows u"
    unfolding r by (rule group_row_items)
  with a r id show ?thesis by simp
qed


lemma insort_desc_lex:
  fixes f :: "'a \<Rightarrow> int" and k :: "'a \<Rightarrow> string"
  assumes "sorted_wrt (\<lambda>a b. f a < f b \<or> (f a = f b \<and> k a < k b)) ys"
    and "\<forall>y \<in> set ys. k x < k y"
  shows "sorted_wrt (\<lambda>a b. f a < f b \<or> (f a = f b \<and> k a < k b)) (insort_key f x ys)"
  using assms
proof (induction ys)
  case Nil
  then show ?case by simp
next
  case (Cons y ys)
  show ?case
  proof (cases "f x \<le> f y")
    case True
    have "\<forall>z \<in> set (y # ys). f x < f z \<or> (f x = f z \<and> k x < k z)"
    proof
      fix z assume z: "z \<in> set (y # ys)"
      with Cons.prems(1) have "f y \<le> f z" by auto
      with True have "f x \<le> f z" by simp
      with Cons.prems(2) z show "f x < f z \<or> (f x = f z \<and> k x < k z)" by auto
    qed
    with True Cons.prems(1) show ?thesis by simp
  next
    case False
    from Cons.prems have ih: "sorted_wrt (\<lambda>a b. f a < f b \<or> (f a = f b \<and> k a < k b))
                                (insort_key f x ys)"
      by (intro Cons.IH) auto
    have "\<forall>z \<in> set (insort_key f x ys). f y < f z \<or> (f y = f z \<and> k y < k z)"
      using False Cons.prems(1) by (auto simp: set_insort_key)
    with False ih show ?thesis by simp
  qed
qed

lemma sort_key_desc_lex:
  fixes f :: "'a \<Rightarrow> int" and k :: "'a \<Rightarrow> string"
  assumes "sorted_wrt (\<lambda>a b. k a < k b) xs"
  shows "sorted_wrt (\<lambda>a b. f a < f b \<or> (f a = f b \<and> k a < k b)) (sort_key f xs)"
  using assms
proof (induction xs)
  case Nil
  then show ?case by simp
next
  case (Cons x xs)
  then have "sorted_wrt (\<lambda>a b. f a < f b \<or> (f a = f b \<and> k a < k b)) (sort_key f xs)"
    and "\<forall>y \<in> set (sort_key f xs). k x < k y"
    by auto
  then show ?case by (simp add: insort_desc_lex)
qed

lemma groups_strict:
  "sorted_wrt (\<lambda>a b. u_discord_id a < u_discord_id b) (topUsers_groups rsum since ranch rows)"
proof -
  have "sorted_wrt (<) (map u_discord_id (topUsers_groups rsum since ranch rows))"
    by (simp add: groups_ids topUsers_actors_strict)
  then show ?thesis by (simp add: sorted_wrt_map)
qed

lemma topUsers_sorted:
  "sorted_wrt board_order (topUsers rsum since ranch lmt rows)"
proof -
  have "sorted_wrt (\<lambda>a b. - items_total a < - items_total b
                          \<or> (- items_total a = - items_total b \<and> u_discord_id a < u_discord_id b))
          (sort_key (\<lambda>r. - items_total r) (topUsers_groups rsum since ranch rows))"
    by (rule sort_key_desc_lex) (rule groups_strict)
  then have "sorted_wrt board_order
          (sort_key (\<lambda>r. - items_total r) (topUsers_groups rsum since ranch rows))"
    by (simp add: board_order_def [abs_def] eq_commute)
  then show ?thesis by (simp add: topUsers_def sorted_wrt_take)
qed

lemma topUsers_subset:
  "set (topUsers rsum since ranch lmt rows) \<subseteq> set (topUsers_groups rsum since ranch rows)"
  by (auto simp: topUsers_def dest: in_set_takeD)

lemma topUsers_length:
  "length (topUsers rsum since None lmt rows) = min lmt (card (ledger_actors since rows))"
  by (simp add: topUsers_def topUsers_groups_def topUsers_actors_length min.commute)

lemma topUsers_rest:
  assumes "x \<in> set (topUsers_groups rsum since ranch rows)"
    and "x \<notin> set (topUsers rsum since ranch lmt rows)"
    and "y \<in> set (topUsers rsum since ranch lmt rows)"
  shows "items_total x \<le> items_total y"
proof -
  let ?all = "sort_key (\<lambda>r. - items_total r) (topUsers_groups rsum since ranch rows)"
  have so: "sorted_wrt board_order (take lmt ?all @ drop lmt ?all)"
    using topUsers_sorted [of rsum since ranch "length ?all" rows]
    by (simp add: topUsers_def)
  from assms(1) have "x \<in> set ?all" by simp
  then have "x \<in> set (take lmt ?all) \<union> set (drop lmt ?all)"
    by (metis append_take_drop_id set_append)
  moreover from assms(2) have "x \<notin> set (take lmt ?all)" by (simp add: topUsers_def)
  ultimately have "x \<in> set (drop lmt ?all)" by blast
  with so assms(3) have "board_order y x"
    by (auto simp only: sorted_wrt_append topUsers_def)
  then show ?thesis by (auto simp: board_order_def)
qed

lemma groups_distinct: "distinct (topUsers_groups rsum since ranch rows)"
proof -
  have "distinct (map u_discord_id (topUsers_groups rsum since ranch rows))"
    by (simp add: groups_ids topUsers_actors_def)
  then show ?thesis by (simp add: distinct_map)
qed

lemma topUsers_ids_distinct: "distinct (map u_discord_id (topUsers rsum since ranch lmt rows))"
proof -
  have d: "distinct (map u_discord_id (topUsers_groups rsum since ranch rows))"
    by (simp add: groups_ids topUsers_actors_def)
  then have "inj_on u_discord_id (set (topUsers_groups rsum since ranch rows))"
    by (simp add: distinct_map)
  then have "inj_on u_discord_id (set (topUsers rsum since ranch lmt rows))"
    using topUsers_subset by (rule inj_on_subset)
  moreover have "distinct (topUsers rsum since ranch lmt rows)"
    by (simp add: topUsers_def groups_distinct)
  ultimately show ?thesis by (simp add: distinct_map)
qed

lemma actor_has_group:
  assumes "u \<in> ledger_actors since rows"
  shows "\<exists>x \<in> set (topUsers_groups rsum since None rows).
           u_discord_id x = u \<and> items_total x = actor_items since rows u"
proof -
  from assms have "u \<in> set (topUsers_actors since None rows)" by (simp add: topUsers_actors_set)
  then have "group_row rsum u
               (filter (\<lambda>r. topUsers_where since None r \<and> g_discord_id r = Some u) rows)
             \<in> set (topUsers_groups rsum since None rows)"
    by (auto simp: topUsers_groups_def)
  then show ?thesis by (metis group_row_id group_row_items)
qed

lemma topUsers_outranks:
  assumes "u \<in> ledger_actors since rows"
    and "u \<notin> set (map u_discord_id (topUsers rsum since None lmt rows))"
    and "r \<in> set (topUsers rsum since None lmt rows)"
  shows "actor_items since rows u \<le> items_total r"
proof -
  from actor_has_group [OF assms(1)] obtain x where
    x: "x \<in> set (topUsers_groups rsum since None rows)" "u_discord_id x = u"
       "items_total x = actor_items since rows u" by blast
  from x(2) assms(2) have "x \<notin> set (topUsers rsum since None lmt rows)" by auto
  from topUsers_rest [OF x(1) this assms(3)] x(3) show ?thesis by simp
qed

lemma ledger_actors_finite: "finite (ledger_actors since rows)"
  by (metis topUsers_actors_set List.finite_set)

lemma board_top:
  "leaderboard_rows sum_value 5000 None (Some 1) ex_board = [ex_urow ''333333333333333333'' 9 0]"
  by code_simp

lemma board_actor:
  "''222222222222222222'' \<in> ledger_actors (parseSinceToTs 5000 None) (gathers ex_board)"
  by (simp add: parseSinceToTs_def ledger_actors_def ex_board_def ex_empty_def ex_row_def
        where_since_def)

section \<open>The weekly cycle and the recurrence marker\<close>

text \<open>
  C10: with no report webhook configured and no subscriber, the weekly cycle returns
  before the prune. It attempts no delivery and leaves the whole database, the ledger
  included, as it was; it never reports a reset, and when no database statement fails it
  ends in the outcome "skipped reset" without an error.
\<close>

theorem cycle_without_target_skips_prune:
  assumes "c_webhook env = None" and "report_subscribers st = []"
  shows "\<exists>oc. performWeeklyReportAndReset env st = (oc, [], st)
              \<and> (\<forall>n. oc \<noteq> Reset_done n)
              \<and> (c_db_fault env = None \<longrightarrow> oc = Skipped_reset)"
  using assms by (simp add: performWeeklyReportAndReset_def Let_def)

text \<open>The cycle on a ledger of one recent row, without webhook and subscribers.\<close>

theorem cycle_without_target_skips_prune_witness:
  "c_webhook (t_cycle (ex_tick None None)) = None \<and> report_subscribers ex_state = []
   \<and> performWeeklyReportAndReset (t_cycle (ex_tick None None)) ex_state
       = (Skipped_reset, [], ex_state)"
  using cycle_without_target_skips_prune [of "t_cycle (ex_tick None None)" ex_state]
  by (simp add: ex_tick_def ex_state_def)

text \<open>
  C1, as the specification states it, fails: on Monday 2024-01-01 at 09:00 (the default
  slot) with a webhook configured, the report goes out and the delete then throws. The
  cycle catches the error itself, the tick sets the marker to the date all the same, and
  the next tick of that minute finds the date marked and does not retry.
\<close>

theorem marker_advanced_after_failed_prune:
  "getLastReportDate ex_state = None
   \<and> scheduler_tick (ex_tick (Some ''hook'') (Some Prune)) ex_state
       = (Triggered (Cycle_error Prune) [Webhook_post 2],
          ex_state\<lparr>meta_last_report_date := Some ''2024-01-01''\<rparr>)
   \<and> fst (scheduler_tick (ex_tick (Some ''hook'') None)
            (ex_state\<lparr>meta_last_report_date := Some ''2024-01-01''\<rparr>)) = Already_reported"
  by code_simp

text \<open>
  C1 (amended): a tick at the configured slot whose date is not the marker runs the cycle
  and then sets the marker to the date, whatever the outcome of the cycle: a reset, a
  skipped reset, or an error in one of its steps, which the cycle catches itself. Every
  later tick with the same clock reading finds the date marked and leaves the database as
  it is, so a failed cycle is not retried at that slot.
\<close>

theorem marker_set_after_every_cycle_outcome:
  assumes "isReportTime (t_now env) (s_weekday (getScheduleMeta st))
             (s_hour (getScheduleMeta st)) (s_minute (getScheduleMeta st))"
    and "getLastReportDate st \<noteq> Some (dateStr (t_now env))"
  shows "\<exists>oc sent st'.
           performWeeklyReportAndReset (t_cycle env) st = (oc, sent, st')
           \<and> scheduler_tick env st
               = (Triggered oc sent,
                  st'\<lparr>meta_last_report_date := Some (dateStr (t_now env))\<rparr>)
           \<and> (\<forall>env'. t_now env' = t_now env \<longrightarrow>
                 scheduler_tick env'
                     (st'\<lparr>meta_last_report_date := Some (dateStr (t_now env))\<rparr>)
                   = (Already_reported,
                      st'\<lparr>meta_last_report_date := Some (dateStr (t_now env))\<rparr>))"
proof -
  obtain oc sent st' where c: "performWeeklyReportAndReset (t_cycle env) st = (oc, sent, st')"
    by (cases "performWeeklyReportAndReset (t_cycle env) st")
  let ?st = "st'\<lparr>meta_last_report_date := Some (dateStr (t_now env))\<rparr>"
  have t: "scheduler_tick env st = (Triggered oc sent, ?st)"
    using assms c by (simp add: scheduler_tick_def Let_def setLastReportDate_def)
  have s: "getScheduleMeta ?st = getScheduleMeta st"
    using getScheduleMeta_cycle [OF c] by (simp add: getScheduleMeta_def)
  have m: "getLastReportDate ?st = Some (dateStr (t_now env))"
    by (simp add: getLastReportDate_def dateStr_nonempty)
  have "\<forall>env'. t_now env' = t_now env \<longrightarrow> scheduler_tick env' ?st = (Already_reported, ?st)"
    using assms(1) s m by (simp add: scheduler_tick_def Let_def)
  with c t show ?thesis by blast
qed

text \<open>The tick of the counterexample, where the delete fails.\<close>

theorem marker_set_after_every_cycle_outcome_witness:
  "isReportTime (t_now (ex_tick (Some ''hook'') (Some Prune)))
     (s_weekday (getScheduleMeta ex_state)) (s_hour (getScheduleMeta ex_state))
     (s_minute (getScheduleMeta ex_state))
   \<and> getLastReportDate ex_state \<noteq> Some (dateStr (t_now (ex_tick (Some ''hook'') (Some Prune))))
   \<and> (\<exists>oc sent st'.
         scheduler_tick (ex_tick (Some ''hook'') (Some Prune)) ex_state
           = (Triggered oc sent,
              st'\<lparr>meta_last_report_date :=
                    Some (dateStr (t_now (ex_tick (Some ''hook'') (Some Prune))))\<rparr>))"
proof -
  have h1: "isReportTime (t_now (ex_tick (Some ''hook'') (Some Prune)))
     (s_weekday (getScheduleMeta ex_state)) (s_hour (getScheduleMeta ex_state))
     (s_minute (getScheduleMeta ex_state))"
    by (simp add: ex_tick_def ex_monday_9_def ex_state_def isReportTime_def getScheduleMeta_def
          DEFAULT_WEEKDAY_def DEFAULT_HOUR_def DEFAULT_MINUTE_def)
  have h2: "getLastReportDate ex_state
              \<noteq> Some (dateStr (t_now (ex_tick (Some ''hook'') (Some Prune))))"
    by (simp add: ex_state_def getLastReportDate_def)
  from marker_set_after_every_cycle_outcome [OF h1 h2] h1 h2 show ?thesis by blast
qed

text \<open>
  C2: among the ticks of one calendar date the scheduled cycle fires at most once. A tick
  at the configured weekday, hour and minute whose date is not the marker fires and sets
  the marker to the date, and no later tick of that date fires again. A successful
  \<^verbatim>\<open>set_report_schedule\<close> clears the marker, so a tick at the new slot fires whatever
  the marker was before, also on a date already marked.
\<close>

theorem scheduled_cycle_once_per_date:
  "((\<forall>e \<in> set es. d_year (t_now e) = y \<and> d_month (t_now e) = mo \<and> d_day (t_now e) = d)
      \<longrightarrow> firings (fst (run_ticks es st)) \<le> 1)
   \<and> (isReportTime (t_now env) (s_weekday (getScheduleMeta st)) (s_hour (getScheduleMeta st))
         (s_minute (getScheduleMeta st))
       \<and> getLastReportDate st \<noteq> Some (dateStr (t_now env))
      \<longrightarrow> is_triggered (fst (scheduler_tick env st))
          \<and> getLastReportDate (snd (scheduler_tick env st)) = Some (dateStr (t_now env))
          \<and> (\<forall>env'. d_year (t_now env') = d_year (t_now env)
                    \<and> d_month (t_now env') = d_month (t_now env)
                    \<and> d_day (t_now env') = d_day (t_now env)
                 \<longrightarrow> \<not> is_triggered (fst (scheduler_tick env' (snd (scheduler_tick env st))))))
   \<and> (0 \<le> w \<and> w \<le> 6 \<and> 0 \<le> h \<and> h \<le> 23 \<and> 0 \<le> mi \<and> mi \<le> 59
       \<and> isReportTime (t_now env2) w h mi
      \<longrightarrow> getLastReportDate
            (snd (cmd_set_report_schedule True (Some w) (Some h) (Some mi) st2)) = None
          \<and> is_triggered
              (fst (scheduler_tick env2
                     (snd (cmd_set_report_schedule True (Some w) (Some h) (Some mi) st2)))))"
proof (intro conjI impI)
  assume a: "\<forall>e \<in> set es. d_year (t_now e) = y \<and> d_month (t_now e) = mo \<and> d_day (t_now e) = d"
  define ds where
    "ds = String_nat y @ ''-'' @ padStart2 (String_nat mo) @ ''-'' @ padStart2 (String_nat d)"
  from a have "\<forall>e \<in> set es. dateStr (t_now e) = ds"
    by (simp add: dateStr_def ds_def)
  then show "firings (fst (run_ticks es st)) \<le> 1" by (rule run_ticks_once)
next
  assume b: "isReportTime (t_now env) (s_weekday (getScheduleMeta st)) (s_hour (getScheduleMeta st))
         (s_minute (getScheduleMeta st))
       \<and> getLastReportDate st \<noteq> Some (dateStr (t_now env))"
  obtain r st' where t: "scheduler_tick env st = (r, st')"
    by (cases "scheduler_tick env st")
  from b t have r: "is_triggered r"
    by (auto simp: scheduler_tick_def Let_def split: prod.splits)
  with tick_cases [OF t] have m: "getLastReportDate st' = Some (dateStr (t_now env))" by auto
  from r t show "is_triggered (fst (scheduler_tick env st))" by simp
  from m t show "getLastReportDate (snd (scheduler_tick env st)) = Some (dateStr (t_now env))"
    by simp
  show "\<forall>env'. d_year (t_now env') = d_year (t_now env)
                    \<and> d_month (t_now env') = d_month (t_now env)
                    \<and> d_day (t_now env') = d_day (t_now env)
                 \<longrightarrow> \<not> is_triggered (fst (scheduler_tick env' (snd (scheduler_tick env st))))"
  proof (intro allI impI)
    fix env' :: tick_env
    assume "d_year (t_now env') = d_year (t_now env)
                    \<and> d_month (t_now env') = d_month (t_now env)
                    \<and> d_day (t_now env') = d_day (t_now env)"
    then have "dateStr (t_now env') = dateStr (t_now env)" by (simp add: dateStr_def)
    with m have "getLastReportDate st' = Some (dateStr (t_now env'))" by simp
    from tick_marked [OF this] t
    show "\<not> is_triggered (fst (scheduler_tick env' (snd (scheduler_tick env st))))" by simp
  qed
next
  assume c: "0 \<le> w \<and> w \<le> 6 \<and> 0 \<le> h \<and> h \<le> 23 \<and> 0 \<le> mi \<and> mi \<le> 59
       \<and> isReportTime (t_now env2) w h mi"
  let ?st = "snd (cmd_set_report_schedule True (Some w) (Some h) (Some mi) st2)"
  from c have st: "?st = setLastReportDate None (setScheduleMeta w h mi st2)"
    by (simp add: cmd_set_report_schedule_def)
  show "getLastReportDate ?st = None"
    by (simp add: st getLastReportDate_def setLastReportDate_def)
  from c show "is_triggered (fst (scheduler_tick env2 ?st))"
    by (simp add: st scheduler_tick_def Let_def getLastReportDate_def setLastReportDate_def
          setScheduleMeta_def getScheduleMeta_def split: prod.splits)
qed

text \<open>Three ticks on 2024-01-01 from an unmarked database, and a reconfiguration to the
  same slot on a database already marked with that date.\<close>

theorem scheduled_cycle_once_per_date_witness:
  "list_all (\<lambda>e. d_year (t_now e) = 2024 \<and> d_month (t_now e) = 1 \<and> d_day (t_now e) = 1)
     [ex_tick None None, ex_tick (Some ''hook'') None, ex_tick None (Some Prune)]
   \<and> firings (fst (run_ticks [ex_tick None None, ex_tick (Some ''hook'') None,
                                ex_tick None (Some Prune)] ex_state)) \<le> 1
   \<and> isReportTime (t_now (ex_tick (Some ''hook'') None)) (s_weekday (getScheduleMeta ex_state))
        (s_hour (getScheduleMeta ex_state)) (s_minute (getScheduleMeta ex_state))
   \<and> getLastReportDate ex_state \<noteq> Some (dateStr (t_now (ex_tick (Some ''hook'') None)))
   \<and> is_triggered (fst (scheduler_tick (ex_tick (Some ''hook'') None) ex_state))
   \<and> \<not> is_triggered (fst (scheduler_tick (ex_tick (Some ''hook'') None)
                             (snd (scheduler_tick (ex_tick (Some ''hook'') None) ex_state))))
   \<and> isReportTime (t_now (ex_tick (Some ''hook'') None)) 1 9 0
   \<and> getLastReportDate ex_marked = Some (dateStr (t_now (ex_tick (Some ''hook'') None)))
   \<and> is_triggered
       (fst (scheduler_tick (ex_tick (Some ''hook'') None)
              (snd (cmd_set_report_schedule True (Some 1) (Some 9) (Some 0) ex_marked))))"
proof -
  have h1: "\<forall>e \<in> set [ex_tick None None, ex_tick (Some ''hook'') None, ex_tick None (Some Prune)].
       d_year (t_now e) = 2024 \<and> d_month (t_now e) = 1 \<and> d_day (t_now e) = 1"
    by (simp add: ex_tick_def ex_monday_9_def)
  have h2: "isReportTime (t_now (ex_tick (Some ''hook'') None))
        (s_weekday (getScheduleMeta ex_state))
        (s_hour (getScheduleMeta ex_state)) (s_minute (getScheduleMeta ex_state))
       \<and> getLastReportDate ex_state \<noteq> Some (dateStr (t_now (ex_tick (Some ''hook'') None)))"
    by (simp add: ex_tick_def ex_monday_9_def ex_state_def isReportTime_def getScheduleMeta_def
          getLastReportDate_def DEFAULT_WEEKDAY_def DEFAULT_HOUR_def DEFAULT_MINUTE_def)
  have h3: "(0::int) \<le> 1 \<and> (1::int) \<le> 6 \<and> (0::int) \<le> 9 \<and> (9::int) \<le> 23
       \<and> (0::int) \<le> 0 \<and> (0::int) \<le> 59
       \<and> isReportTime (t_now (ex_tick (Some ''hook'') None)) 1 9 0"
    by (simp add: ex_tick_def ex_monday_9_def isReportTime_def)
  have h4: "getLastReportDate ex_marked = Some (dateStr (t_now (ex_tick (Some ''hook'') None)))"
    by code_simp
  note inst = scheduled_cycle_once_per_date
      [of "[ex_tick None None, ex_tick (Some ''hook'') None, ex_tick None (Some Prune)]"
          2024 1 1 ex_state "ex_tick (Some ''hook'') None" 1 9 0
          "ex_tick (Some ''hook'') None" ex_marked]
  from inst h1 have c1: "firings (fst (run_ticks [ex_tick None None, ex_tick (Some ''hook'') None,
                                ex_tick None (Some Prune)] ex_state)) \<le> 1" by blast
  from inst h2 have c2: "is_triggered (fst (scheduler_tick (ex_tick (Some ''hook'') None) ex_state))
    \<and> \<not> is_triggered (fst (scheduler_tick (ex_tick (Some ''hook'') None)
                             (snd (scheduler_tick (ex_tick (Some ''hook'') None) ex_state))))"
    by blast
  from inst h3 have c3: "is_triggered
       (fst (scheduler_tick (ex_tick (Some ''hook'') None)
              (snd (cmd_set_report_schedule True (Some 1) (Some 9) (Some 0) ex_marked))))"
    by blast
  from h1 have h1': "list_all (\<lambda>e. d_year (t_now e) = 2024 \<and> d_month (t_now e) = 1
                                  \<and> d_day (t_now e) = 1)
     [ex_tick None None, ex_tick (Some ''hook'') None, ex_tick None (Some Prune)]"
    by simp
  from h1' h2 h3 h4 c1 c2 c3 show ?thesis by blast
qed

section \<open>The extractor and the validator\<close>

text \<open>
  C5: \<^verbatim>\<open>parseGather\<close> rejects a text exactly when the extractor finds no item (no
  amount) or the item's amount is at most 0 or above 100000; every amount from 1 to 100000
  passes. An amount of 100001 is rejected and an amount of 100000 is accepted.
\<close>

theorem validator_amount_bounds:
  "(parseGather text = None \<longleftrightarrow>
      (case extractItemAndAmount text of
         None \<Rightarrow> True
       | Some item \<Rightarrow> i_amount item \<le> 0 \<or> i_amount item > 100000))
   \<and> parseGather ''<@123456789012345678> collected 100001 eggs'' = None
   \<and> parseGather ''<@123456789012345678> collected 100000 eggs''
       = Some \<lparr>p_discord_id = Some ''123456789012345678'', p_actor = None, p_ranch_id = None,
               p_item_type = Eggs, p_amount = 100000, p_value = 0, p_subtype = None\<rparr>"
proof (intro conjI)
  show "parseGather text = None \<longleftrightarrow>
      (case extractItemAndAmount text of
         None \<Rightarrow> True
       | Some item \<Rightarrow> i_amount item \<le> 0 \<or> i_amount item > 100000)"
    by (cases "text = []")
       (auto simp: parseGather_def extract_item_empty Let_def split: option.splits)
  show "parseGather ''<@123456789012345678> collected 100001 eggs'' = None"
    by code_simp
  show "parseGather ''<@123456789012345678> collected 100000 eggs''
       = Some \<lparr>p_discord_id = Some ''123456789012345678'', p_actor = None, p_ranch_id = None,
               p_item_type = Eggs, p_amount = 100000, p_value = 0, p_subtype = None\<rparr>"
    by code_simp
qed

text \<open>
  C6: the three texts of the specification parse as it says: a mention and "5 eggs" give
  the actor id, eggs and 5; "bought 5 Bison for $300" gives a herd buy of 5 with value 300
  and subtype bison; "sold 4 Bison for 960.0$" gives a herd sell of 4 with value 960 and
  subtype bison. Whenever the egg/milk rule matches, its match alone decides the item, so
  the herd rule is tried only when it did not match; then a herd match gives the action,
  the count, the price with its commas removed, and the animal word in lower case.
\<close>

theorem extractor_primary_and_herd_rules:
  "parseGather ''<@123456789012345678> collected 5 eggs''
     = Some \<lparr>p_discord_id = Some ''123456789012345678'', p_actor = None, p_ranch_id = None,
             p_item_type = Eggs, p_amount = 5, p_value = 0, p_subtype = None\<rparr>
   \<and> parseGather ''[PlayerX] bought 5 Bison for $300''
     = Some \<lparr>p_discord_id = None, p_actor = Some ''PlayerX'', p_ranch_id = None,
             p_item_type = Herd_buy, p_amount = 5, p_value = 300, p_subtype = Some ''bison''\<rparr>
   \<and> parseGather ''sold 4 Bison for 960.0$''
     = Some \<lparr>p_discord_id = None, p_actor = None, p_ranch_id = None,
             p_item_type = Herd_sell, p_amount = 4, p_value = 960, p_subtype = Some ''bison''\<rparr>
   \<and> (text \<noteq> [] \<and> re_match True re_near (trim (collapse_ws text)) = Some near
        \<longrightarrow> extractItemAndAmount text
              = Some \<lparr>i_item_type = (if take 4 (toLowerCase (grp near 2)) = ''milk''
                                      then Milk else Eggs),
                      i_amount = number_of_digits (grp near 1), i_value = Num 0,
                      i_subtype = None\<rparr>)
   \<and> (text2 \<noteq> [] \<and> re_match True re_near (trim (collapse_ws text2)) = None
        \<and> re_match True re_herd (trim (collapse_ws text2)) = Some herd
        \<longrightarrow> extractItemAndAmount text2
              = Some \<lparr>i_item_type = (if toLowerCase (grp herd 1) = ''bought''
                                      then Herd_buy else Herd_sell),
                      i_amount = number_of_digits (grp herd 2),
                      i_value = Number_price (filter (\<lambda>c. c \<noteq> CHR '','') (grp herd 4)),
                      i_subtype = Some (toLowerCase (grp herd 3))\<rparr>)"
proof (intro conjI impI)
  show "parseGather ''<@123456789012345678> collected 5 eggs''
     = Some \<lparr>p_discord_id = Some ''123456789012345678'', p_actor = None, p_ranch_id = None,
             p_item_type = Eggs, p_amount = 5, p_value = 0, p_subtype = None\<rparr>"
    by (rule parse_eggs)
  show "parseGather ''[PlayerX] bought 5 Bison for $300''
     = Some \<lparr>p_discord_id = None, p_actor = Some ''PlayerX'', p_ranch_id = None,
             p_item_type = Herd_buy, p_amount = 5, p_value = 300, p_subtype = Some ''bison''\<rparr>"
    by code_simp
  show "parseGather ''sold 4 Bison for 960.0$''
     = Some \<lparr>p_discord_id = None, p_actor = None, p_ranch_id = None,
             p_item_type = Herd_sell, p_amount = 4, p_value = 960, p_subtype = Some ''bison''\<rparr>"
    by code_simp
next
  assume "text \<noteq> [] \<and> re_match True re_near (trim (collapse_ws text)) = Some near"
  then show "extractItemAndAmount text
              = Some \<lparr>i_item_type = (if take 4 (toLowerCase (grp near 2)) = ''milk''
                                      then Milk else Eggs),
                      i_amount = number_of_digits (grp near 1), i_value = Num 0,
                      i_subtype = None\<rparr>"
    by (simp add: extractItemAndAmount_def Let_def)
next
  assume "text2 \<noteq> [] \<and> re_match True re_near (trim (collapse_ws text2)) = None
        \<and> re_match True re_herd (trim (collapse_ws text2)) = Some herd"
  then show "extractItemAndAmount text2
              = Some \<lparr>i_item_type = (if toLowerCase (grp herd 1) = ''bought''
                                      then Herd_buy else Herd_sell),
                      i_amount = number_of_digits (grp herd 2),
                      i_value = Number_price (filter (\<lambda>c. c \<noteq> CHR '','') (grp herd 4)),
                      i_subtype = Some (toLowerCase (grp herd 3))\<rparr>"
    by (simp add: extractItemAndAmount_def Let_def)
qed

text \<open>A text where both rules could apply, and a herd text with a comma in the price,
  capital letters and a double space.\<close>

theorem extractor_primary_and_herd_rules_witness:
  "''bought 5 Bison for $300 and 2 Eggs'' \<noteq> []
   \<and> re_match True re_near (trim (collapse_ws ''bought 5 Bison for $300 and 2 Eggs''))
       = Some [(2, ''Eggs''), (1, ''2'')]
   \<and> extractItemAndAmount ''bought 5 Bison for $300 and 2 Eggs''
       = Some \<lparr>i_item_type = Eggs, i_amount = 2, i_value = Num 0, i_subtype = None\<rparr>
   \<and> re_match True re_near (trim (collapse_ws ''Sold 12  LONGHORN for $1,960.50'')) = None
   \<and> re_match True re_herd (trim (collapse_ws ''Sold 12  LONGHORN for $1,960.50''))
       = Some [(4, ''1,960.50''), (3, ''LONGHORN''), (2, ''12''), (1, ''Sold'')]
   \<and> extractItemAndAmount ''Sold 12  LONGHORN for $1,960.50''
       = Some \<lparr>i_item_type = Herd_sell, i_amount = 12, i_value = Num (19605 / 10),
               i_subtype = Some ''longhorn''\<rparr>"
proof -
  note inst = extractor_primary_and_herd_rules
    [of "''bought 5 Bison for $300 and 2 Eggs''" "[(2, ''Eggs''), (1, ''2'')]"
        "''Sold 12  LONGHORN for $1,960.50''"
        "[(4, ''1,960.50''), (3, ''LONGHORN''), (2, ''12''), (1, ''Sold'')]"]
  have a: "extractItemAndAmount ''bought 5 Bison for $300 and 2 Eggs''
       = Some \<lparr>i_item_type = (if take 4 (toLowerCase (grp [(2, ''Eggs''), (1, ''2'')] 2)) = ''milk''
                                      then Milk else Eggs),
                      i_amount = number_of_digits (grp [(2, ''Eggs''), (1, ''2'')] 1), i_value = Num 0,
                      i_subtype = None\<rparr>"
    using inst near_ex by blast
  have b: "extractItemAndAmount ''Sold 12  LONGHORN for $1,960.50''
              = Some \<lparr>i_item_type = (if toLowerCase (grp [(4, ''1,960.50''), (3, ''LONGHORN''), (2, ''12''), (1, ''Sold'')] 1) = ''bought''
                                      then Herd_buy else Herd_sell),
                      i_amount = number_of_digits (grp [(4, ''1,960.50''), (3, ''LONGHORN''), (2, ''12''), (1, ''Sold'')] 2),
                      i_value = Number_price (filter (\<lambda>c. c \<noteq> CHR '','') (grp [(4, ''1,960.50''), (3, ''LONGHORN''), (2, ''12''), (1, ''Sold'')] 4)),
                      i_subtype = Some (toLowerCase (grp [(4, ''1,960.50''), (3, ''LONGHORN''), (2, ''12''), (1, ''Sold'')] 3))\<rparr>"
    using inst herd_ex by blast
  have a': "(\<lparr>i_item_type = (if take 4 (toLowerCase (grp [(2, ''Eggs''), (1, ''2'')] 2)) = ''milk''
                                      then Milk else Eggs),
                      i_amount = number_of_digits (grp [(2, ''Eggs''), (1, ''2'')] 1), i_value = Num 0,
                      i_subtype = None\<rparr>) = \<lparr>i_item_type = Eggs, i_amount = 2, i_value = Num 0, i_subtype = None\<rparr>"
    by code_simp
  have b': "\<lparr>i_item_type = (if toLowerCase (grp [(4, ''1,960.50''), (3, ''LONGHORN''), (2, ''12''), (1, ''Sold'')] 1) = ''bought''
                                      then Herd_buy else Herd_sell),
                      i_amount = number_of_digits (grp [(4, ''1,960.50''), (3, ''LONGHORN''), (2, ''12''), (1, ''Sold'')] 2),
                      i_value = Number_price (filter (\<lambda>c. c \<noteq> CHR '','') (grp [(4, ''1,960.50''), (3, ''LONGHORN''), (2, ''12''), (1, ''Sold'')] 4)),
                      i_subtype = Some (toLowerCase (grp [(4, ''1,960.50''), (3, ''LONGHORN''), (2, ''12''), (1, ''Sold'')] 3))\<rparr>
      = \<lparr>i_item_type = Herd_sell, i_amount = 12, i_value = Num (19605 / 10),
               i_subtype = Some ''longhorn''\<rparr>"
    by code_simp
  from a a' b b' near_ex herd_ex show ?thesis by simp
qed

section \<open>The duplicate filter and the attribution check\<close>

text \<open>
  C3: the duplicate query counts a row exactly when it has the same channel, item type
  and amount, the same actor id (or both are null), and a timestamp of at least the
  window start. A message that reaches the filter is suppressed as a duplicate if and
  only if the ledger holds such a row with timestamp at least now minus 10 seconds. After
  a first event at time \<open>T\<close>, an identical one 5 seconds later is suppressed, and an
  identical one 11 seconds later (a new source message) is appended.
\<close>

theorem duplicate_window_suppression:
  "(0 < countRecentDuplicate ch ty amt did since rows \<longleftrightarrow>
      (\<exists>r \<in> set rows. g_channel_id r = ch \<and> g_item_type r = ty \<and> g_amount r = amt
                       \<and> g_discord_id r = did \<and> since \<le> g_ts r))
   \<and> (m_channelId msg = listen \<and> parseGather (message_text msg) = Some p
        \<and> p_discord_id p = Some d \<and> d \<noteq> []
       \<longrightarrow> (fst (messageCreate listen now now' msg st) = DUPLICATE_SKIPPED \<longleftrightarrow>
              (\<exists>r \<in> set (gathers st).
                  g_channel_id r = m_channelId msg \<and> g_item_type r = p_item_type p
                  \<and> g_amount r = p_amount p \<and> g_discord_id r = Some d
                  \<and> now - 10 * 1000 \<le> g_ts r)))
   \<and> messageCreate ''chan'' T T (ex_msg ''m1'' ''<@123456789012345678> collected 5 eggs'')
         ex_empty = (LOGGED, ex_logged T)
   \<and> messageCreate ''chan'' (T + 5000) (T + 5000)
         (ex_msg ''m2'' ''<@123456789012345678> collected 5 eggs'') (ex_logged T)
       = (DUPLICATE_SKIPPED, ex_logged T)
   \<and> fst (messageCreate ''chan'' (T + 11000) (T + 11000)
         (ex_msg ''m3'' ''<@123456789012345678> collected 5 eggs'') (ex_logged T)) = LOGGED"
proof (intro conjI impI)
  show "0 < countRecentDuplicate ch ty amt did since rows \<longleftrightarrow>
      (\<exists>r \<in> set rows. g_channel_id r = ch \<and> g_item_type r = ty \<and> g_amount r = amt
                       \<and> g_discord_id r = did \<and> since \<le> g_ts r)"
    by (rule count_duplicates_pos)
next
  assume a: "m_channelId msg = listen \<and> parseGather (message_text msg) = Some p
        \<and> p_discord_id p = Some d \<and> d \<noteq> []"
  let ?cnt = "countRecentDuplicate (m_channelId msg) (p_item_type p) (p_amount p) (Some d)
                (now - 10 * 1000) (gathers st)"
  from a have "fst (messageCreate listen now now' msg st) = DUPLICATE_SKIPPED \<longleftrightarrow> 0 < ?cnt"
    by (auto simp: messageCreate_def Let_def DUPLICATE_WINDOW_MS_def split: sum.splits)
  then show "fst (messageCreate listen now now' msg st) = DUPLICATE_SKIPPED \<longleftrightarrow>
              (\<exists>r \<in> set (gathers st).
                  g_channel_id r = m_channelId msg \<and> g_item_type r = p_item_type p
                  \<and> g_amount r = p_amount p \<and> g_discord_id r = Some d
                  \<and> now - 10 * 1000 \<le> g_ts r)"
    by (simp only: count_duplicates_pos)
next
  show "messageCreate ''chan'' T T (ex_msg ''m1'' ''<@123456789012345678> collected 5 eggs'')
         ex_empty = (LOGGED, ex_logged T)"
    by (simp add: messageCreate_def ex_msg_text parse_eggs Let_def countRecentDuplicate_def
          insertGather_def or_null_def ex_logged_def)
       (simp add: ex_msg_def ex_empty_def)
  show "messageCreate ''chan'' (T + 5000) (T + 5000)
         (ex_msg ''m2'' ''<@123456789012345678> collected 5 eggs'') (ex_logged T)
       = (DUPLICATE_SKIPPED, ex_logged T)"
    by (simp add: messageCreate_def ex_msg_text parse_eggs Let_def countRecentDuplicate_def
          duplicate_row_def DUPLICATE_WINDOW_MS_def ex_logged_def)
       (simp add: ex_msg_def ex_empty_def)
  show "fst (messageCreate ''chan'' (T + 11000) (T + 11000)
         (ex_msg ''m3'' ''<@123456789012345678> collected 5 eggs'') (ex_logged T)) = LOGGED"
    by (simp add: messageCreate_def ex_msg_text parse_eggs Let_def countRecentDuplicate_def
          duplicate_row_def DUPLICATE_WINDOW_MS_def insertGather_def ex_logged_def)
       (simp add: ex_msg_def ex_empty_def)
qed

text \<open>The second message of the example, 5 and 11 seconds after a row stored at time
  1000.\<close>

theorem duplicate_window_suppression_witness:
  "m_channelId (ex_msg ''m2'' ''<@123456789012345678> collected 5 eggs'') = ''chan''
   \<and> parseGather (message_text (ex_msg ''m2'' ''<@123456789012345678> collected 5 eggs''))
       = Some \<lparr>p_discord_id = Some ''123456789012345678'', p_actor = None, p_ranch_id = None,
               p_item_type = Eggs, p_amount = 5, p_value = 0, p_subtype = None\<rparr>
   \<and> fst (messageCreate ''chan'' 6000 6000
            (ex_msg ''m2'' ''<@123456789012345678> collected 5 eggs'') (ex_logged 1000))
       = DUPLICATE_SKIPPED
   \<and> fst (messageCreate ''chan'' 12000 12000
            (ex_msg ''m2'' ''<@123456789012345678> collected 5 eggs'') (ex_logged 1000))
       \<noteq> DUPLICATE_SKIPPED"
proof -
  let ?msg = "ex_msg ''m2'' ''<@123456789012345678> collected 5 eggs''"
  let ?p = "\<lparr>p_discord_id = Some ''123456789012345678'', p_actor = None, p_ranch_id = None,
               p_item_type = Eggs, p_amount = 5, p_value = 0, p_subtype = None\<rparr>"
  have h: "m_channelId ?msg = ''chan'' \<and> parseGather (message_text ?msg) = Some ?p
        \<and> p_discord_id ?p = Some ''123456789012345678'' \<and> ''123456789012345678'' \<noteq> []"
    by (simp add: ex_msg_text parse_eggs) (simp add: ex_msg_def)
  have yes: "\<exists>r \<in> set (gathers (ex_logged 1000)).
                  g_channel_id r = m_channelId ?msg \<and> g_item_type r = p_item_type ?p
                  \<and> g_amount r = p_amount ?p \<and> g_discord_id r = Some ''123456789012345678''
                  \<and> 6000 - 10 * 1000 \<le> g_ts r"
    by (simp add: ex_logged_def ex_empty_def ex_msg_def)
  have no: "\<not> (\<exists>r \<in> set (gathers (ex_logged 1000)).
                  g_channel_id r = m_channelId ?msg \<and> g_item_type r = p_item_type ?p
                  \<and> g_amount r = p_amount ?p \<and> g_discord_id r = Some ''123456789012345678''
                  \<and> 12000 - 10 * 1000 \<le> g_ts r)"
    by (simp add: ex_logged_def ex_empty_def ex_msg_def)
  from duplicate_window_suppression
         [where msg = ?msg and listen = "''chan''" and p = ?p and d = "''123456789012345678''"
            and now = 6000 and now' = 6000 and st = "ex_logged 1000"] h yes
  have a: "fst (messageCreate ''chan'' 6000 6000 ?msg (ex_logged 1000)) = DUPLICATE_SKIPPED"
    by blast
  from duplicate_window_suppression
         [where msg = ?msg and listen = "''chan''" and p = ?p and d = "''123456789012345678''"
            and now = 12000 and now' = 12000 and st = "ex_logged 1000"] h no
  have b: "fst (messageCreate ''chan'' 12000 12000 ?msg (ex_logged 1000)) \<noteq> DUPLICATE_SKIPPED"
    by blast
  from h a b show ?thesis by blast
qed

text \<open>
  C4: a message is appended to the ledger only if its text contains a mention token
  \<^verbatim>\<open><@id>\<close> or \<^verbatim>\<open><@!id>\<close> around 17 to 20 digits, and the stored row carries that id.
  A text without a mention id is dropped with the database unchanged, whether or not a
  name prefix reads "unknown"; every outcome other than a logged event leaves the database
  unchanged; so a ledger whose rows all have an actor id keeps that property.
\<close>

theorem stored_events_have_actor:
  "(fst (messageCreate listen now now' msg st) = LOGGED
      \<longrightarrow> (\<exists>d r. extractDiscordId (message_text msg) = Some d
                 \<and> 17 \<le> length d \<and> length d \<le> 20 \<and> list_all is_digit d
                 \<and> (\<exists>pre post. message_text msg = pre @ ''<@'' @ d @ ''>'' @ post
                               \<or> message_text msg = pre @ ''<@!'' @ d @ ''>'' @ post)
                 \<and> g_discord_id r = Some d
                 \<and> gathers (snd (messageCreate listen now now' msg st)) = gathers st @ [r]))
   \<and> (extractDiscordId (message_text msg) = None
      \<longrightarrow> snd (messageCreate listen now now' msg st) = st
          \<and> fst (messageCreate listen now now' msg st)
               \<in> {OTHER_CHANNEL, PARSE_FAIL, SKIP_UNKNOWN_ACTOR, SKIP_NO_MENTION})
   \<and> (fst (messageCreate listen now now' msg st) \<noteq> LOGGED
      \<longrightarrow> snd (messageCreate listen now now' msg st) = st)
   \<and> ((\<forall>r \<in> set (gathers st). g_discord_id r \<noteq> None)
      \<longrightarrow> (\<forall>r \<in> set (gathers (snd (messageCreate listen now now' msg st))).
             g_discord_id r \<noteq> None))"
proof -
  obtain oc st' where mc: "messageCreate listen now now' msg st = (oc, st')"
    by (cases "messageCreate listen now now' msg st")
  note cases = messageCreate_cases [OF mc]
  have 1: "oc = LOGGED \<longrightarrow> (\<exists>d r. extractDiscordId (message_text msg) = Some d
                 \<and> 17 \<le> length d \<and> length d \<le> 20 \<and> list_all is_digit d
                 \<and> (\<exists>pre post. message_text msg = pre @ ''<@'' @ d @ ''>'' @ post
                               \<or> message_text msg = pre @ ''<@!'' @ d @ ''>'' @ post)
                 \<and> g_discord_id r = Some d \<and> gathers st' = gathers st @ [r])"
  proof
    assume "oc = LOGGED"
    with cases obtain p d r where p: "parseGather (message_text msg) = Some p"
      and d: "p_discord_id p = Some d" and r: "g_discord_id r = Some d"
      and g: "gathers st' = gathers st @ [r]" by auto
    from parseGather_discord_id [OF p] d have e: "extractDiscordId (message_text msg) = Some d"
      by simp
    from extractDiscordId_Some [OF e] e r g show "\<exists>d r. extractDiscordId (message_text msg) = Some d
                 \<and> 17 \<le> length d \<and> length d \<le> 20 \<and> list_all is_digit d
                 \<and> (\<exists>pre post. message_text msg = pre @ ''<@'' @ d @ ''>'' @ post
                               \<or> message_text msg = pre @ ''<@!'' @ d @ ''>'' @ post)
                 \<and> g_discord_id r = Some d \<and> gathers st' = gathers st @ [r]"
      by blast
  qed
  have 2: "extractDiscordId (message_text msg) = None \<longrightarrow> st' = st
          \<and> oc \<in> {OTHER_CHANNEL, PARSE_FAIL, SKIP_UNKNOWN_ACTOR, SKIP_NO_MENTION}"
    using mc
    by (auto simp: messageCreate_def Let_def split: if_splits option.splits
             dest: parseGather_discord_id)
  have 3: "oc \<noteq> LOGGED \<longrightarrow> st' = st" using cases by auto
  have 4: "(\<forall>r \<in> set (gathers st). g_discord_id r \<noteq> None)
      \<longrightarrow> (\<forall>r \<in> set (gathers st'). g_discord_id r \<noteq> None)"
    using cases by auto
  from 1 2 3 4 show ?thesis by (simp add: mc)
qed

text \<open>A logged message with a mention, and two messages without one: the first with
  the bracketed name "Unknown", the second with a piped name.\<close>

theorem stored_events_have_actor_witness:
  "fst (messageCreate ''chan'' 1000 1000
          (ex_msg ''m1'' ''<@123456789012345678> collected 5 eggs'') ex_empty) = LOGGED
   \<and> (\<exists>d r. extractDiscordId (message_text (ex_msg ''m1'' ''<@123456789012345678> collected 5 eggs''))
                = Some d
             \<and> g_discord_id r = Some d
             \<and> gathers (snd (messageCreate ''chan'' 1000 1000
                   (ex_msg ''m1'' ''<@123456789012345678> collected 5 eggs'') ex_empty))
                 = gathers ex_empty @ [r])
   \<and> extractDiscordId (message_text (ex_msg ''m5'' ''[Unknown] collected 5 eggs'')) = None
   \<and> messageCreate ''chan'' 6000 6000 (ex_msg ''m5'' ''[Unknown] collected 5 eggs'')
        (ex_logged 1000) = (SKIP_UNKNOWN_ACTOR, ex_logged 1000)
   \<and> extractDiscordId (message_text (ex_msg ''m6'' ''Bob | collected 5 eggs'')) = None
   \<and> messageCreate ''chan'' 6000 6000 (ex_msg ''m6'' ''Bob | collected 5 eggs'')
        (ex_logged 1000) = (SKIP_NO_MENTION, ex_logged 1000)
   \<and> list_all (\<lambda>r. g_discord_id r \<noteq> None) (gathers (ex_logged 1000))
   \<and> list_all (\<lambda>r. g_discord_id r \<noteq> None)
        (gathers (snd (messageCreate ''chan'' 12000 12000
           (ex_msg ''m3'' ''<@123456789012345678> collected 5 eggs'') (ex_logged 1000))))"
proof -
  let ?eggs = "''<@123456789012345678> collected 5 eggs''"
  note a = stored_events_have_actor
    [where listen = "''chan''" and now = 1000 and now' = 1000 and msg = "ex_msg ''m1'' ?eggs"
       and st = ex_empty]
  from a logged_first
  have 1: "\<exists>d r. extractDiscordId (message_text (ex_msg ''m1'' ?eggs)) = Some d
             \<and> g_discord_id r = Some d
             \<and> gathers (snd (messageCreate ''chan'' 1000 1000 (ex_msg ''m1'' ?eggs) ex_empty))
                 = gathers ex_empty @ [r]"
    by blast
  have 2: "extractDiscordId (message_text (ex_msg ''m5'' ''[Unknown] collected 5 eggs'')) = None"
    "extractDiscordId (message_text (ex_msg ''m6'' ''Bob | collected 5 eggs'')) = None"
    using mention_absent by (simp_all add: ex_msg_plain)
  have 3: "list_all (\<lambda>r. g_discord_id r \<noteq> None) (gathers (ex_logged 1000))"
    by (simp add: ex_logged_def ex_empty_def)
  then have "\<forall>r \<in> set (gathers (ex_logged 1000)). g_discord_id r \<noteq> None"
    by (simp add: list_all_iff)
  with stored_events_have_actor
    [where listen = "''chan''" and now = 12000 and now' = 12000 and msg = "ex_msg ''m3'' ?eggs"
       and st = "ex_logged 1000"]
  have "\<forall>r \<in> set (gathers (snd (messageCreate ''chan'' 12000 12000 (ex_msg ''m3'' ?eggs)
                                     (ex_logged 1000)))). g_discord_id r \<noteq> None"
    by blast
  then have 4: "list_all (\<lambda>r. g_discord_id r \<noteq> None)
        (gathers (snd (messageCreate ''chan'' 12000 12000 (ex_msg ''m3'' ?eggs) (ex_logged 1000))))"
    by (simp add: list_all_iff)
  from logged_first 1 2 skip_unknown skip_no_mention 3 4 show ?thesis by blast
qed

section \<open>The fallback rule\<close>

text \<open>
  C7, as the specification states it, fails. In "eggs 7 ranch 0" neither the egg/milk rule
  nor the herd rule matches and the ranch id is 0; the code's test \<^verbatim>\<open>if (ranchId)\<close>
  is false for 0, so the 0 is not discarded and becomes the amount, where the
  specification's rule gives 7. In "milk 5 ranch 5" the code discards both integers equal
  to the ranch id and finds no amount, where discarding one of them leaves the amount 5.
\<close>

theorem fallback_keeps_ranch_zero_and_drops_every_equal:
  "re_match True re_near ''eggs 7 ranch 0'' = None
   \<and> re_match True re_herd ''eggs 7 ranch 0'' = None
   \<and> re_match True re_has_eggs ''eggs 7 ranch 0'' \<noteq> None
   \<and> extractRanchId ''eggs 7 ranch 0'' = Some 0
   \<and> spec_fallback ''eggs 7 ranch 0''
       = Some \<lparr>i_item_type = Eggs, i_amount = 7, i_value = Num 0, i_subtype = None\<rparr>
   \<and> extractItemAndAmount ''eggs 7 ranch 0''
       = Some \<lparr>i_item_type = Eggs, i_amount = 0, i_value = Num 0, i_subtype = None\<rparr>
   \<and> re_match True re_near ''milk 5 ranch 5'' = None
   \<and> re_match True re_herd ''milk 5 ranch 5'' = None
   \<and> re_match True re_has_milk ''milk 5 ranch 5'' \<noteq> None
   \<and> extractRanchId ''milk 5 ranch 5'' = Some 5
   \<and> spec_fallback ''milk 5 ranch 5''
       = Some \<lparr>i_item_type = Milk, i_amount = 5, i_value = Num 0, i_subtype = None\<rparr>
   \<and> extractItemAndAmount ''milk 5 ranch 5'' = None"
  by code_simp

text \<open>
  C7 (amended): for every text in which neither the egg/milk rule nor the herd rule
  matches but the word "egg", "eggs" or "milk" occurs, and whose ranch id is absent or
  not 0, the fallback collects all integers of the text, discards every integer equal to
  the ranch id, and reports no match when none remains; otherwise the amount is the last
  remaining integer and the item type is milk if "milk" occurs and eggs otherwise.
\<close>

theorem fallback_rule:
  assumes "text \<noteq> []" and "t = trim (collapse_ws text)"
    and "re_match True re_near t = None" and "re_match True re_herd t = None"
    and "re_match True re_has_eggs t \<noteq> None \<or> re_match True re_has_milk t \<noteq> None"
    and "extractRanchId t \<noteq> Some 0"
  shows "extractItemAndAmount text =
           (let remaining = filter (\<lambda>n. Some n \<noteq> extractRanchId t)
                              (map number_of_digits (digit_runs t))
            in if remaining = [] then None
               else Some \<lparr>i_item_type = (if re_match True re_has_milk t \<noteq> None
                                         then Milk else Eggs),
                          i_amount = last remaining, i_value = Num 0, i_subtype = None\<rparr>)"
proof (cases "extractRanchId t")
  case None
  with assms show ?thesis by (auto simp: extractItemAndAmount_def Let_def)
next
  case (Some rid)
  with assms(6) have "rid \<noteq> 0" by simp
  moreover have "(\<lambda>n. Some n \<noteq> Some rid) = (\<lambda>n. n \<noteq> rid)" by auto
  ultimately show ?thesis using assms Some
    by (auto simp: extractItemAndAmount_def Let_def)
qed

text \<open>A text whose ranch id 12 occurs twice: both occurrences are discarded and the
  amount is 40. And a text whose two integers, 2^53 + 1 and the ranch id 2^53, are the
  same double: both are discarded and there is no match.\<close>

theorem fallback_rule_witness:
  "''ranch 12 | milk: 40 | 12'' \<noteq> []
   \<and> ''ranch 12 | milk: 40 | 12'' = trim (collapse_ws ''ranch 12 | milk: 40 | 12'')
   \<and> re_match True re_near ''ranch 12 | milk: 40 | 12'' = None
   \<and> re_match True re_herd ''ranch 12 | milk: 40 | 12'' = None
   \<and> re_match True re_has_milk ''ranch 12 | milk: 40 | 12'' \<noteq> None
   \<and> extractRanchId ''ranch 12 | milk: 40 | 12'' = Some 12
   \<and> extractItemAndAmount ''ranch 12 | milk: 40 | 12''
       = Some \<lparr>i_item_type = Milk, i_amount = 40, i_value = Num 0, i_subtype = None\<rparr>
   \<and> re_match True re_near ''eggs 9007199254740993 ranch 9007199254740992'' = None
   \<and> re_match True re_herd ''eggs 9007199254740993 ranch 9007199254740992'' = None
   \<and> re_match True re_has_eggs ''eggs 9007199254740993 ranch 9007199254740992'' \<noteq> None
   \<and> extractRanchId ''eggs 9007199254740993 ranch 9007199254740992'' = Some 9007199254740992
   \<and> extractItemAndAmount ''eggs 9007199254740993 ranch 9007199254740992'' = None"
proof -
  let ?t = "''ranch 12 | milk: 40 | 12''"
  note e = fallback_ex
  have h1: "?t \<noteq> []" by simp
  have h2: "?t = trim (collapse_ws ?t)" by (rule sym) (rule e [THEN conjunct1])
  have h3: "re_match True re_near ?t = None" by (rule e [THEN conjunct2, THEN conjunct1])
  have h4: "re_match True re_herd ?t = None"
    by (rule e [THEN conjunct2, THEN conjunct2, THEN conjunct1])
  have m: "re_match True re_has_milk ?t \<noteq> None"
    by (rule e [THEN conjunct2, THEN conjunct2, THEN conjunct2, THEN conjunct1])
  have h5: "re_match True re_has_eggs ?t \<noteq> None \<or> re_match True re_has_milk ?t \<noteq> None"
    by (rule disjI2) (rule m)
  have r: "extractRanchId ?t = Some 12"
    by (rule e [THEN conjunct2, THEN conjunct2, THEN conjunct2, THEN conjunct2, THEN conjunct1])
  have h6: "extractRanchId ?t \<noteq> Some 0" unfolding r by simp
  have n: "map number_of_digits (digit_runs ?t) = [12, 40, 12]"
    by (rule e [THEN conjunct2, THEN conjunct2, THEN conjunct2, THEN conjunct2, THEN conjunct2])
  have "extractItemAndAmount ?t
          = (let remaining = filter (\<lambda>n. Some n \<noteq> extractRanchId ?t)
                              (map number_of_digits (digit_runs ?t))
            in if remaining = [] then None
               else Some \<lparr>i_item_type = (if re_match True re_has_milk ?t \<noteq> None
                                         then Milk else Eggs),
                          i_amount = last remaining, i_value = Num 0, i_subtype = None\<rparr>)"
    by (rule fallback_rule [OF h1 h2 h3 h4 h5 h6])
  also have "\<dots> = Some \<lparr>i_item_type = Milk, i_amount = 40, i_value = Num 0, i_subtype = None\<rparr>"
    unfolding r n using m by simp
  finally have c: "extractItemAndAmount ?t
       = Some \<lparr>i_item_type = Milk, i_amount = 40, i_value = Num 0, i_subtype = None\<rparr>" .
  let ?b = "''eggs 9007199254740993 ranch 9007199254740992''"
  note f = fallback_big_ex
  have g1: "?b \<noteq> []" by simp
  have g2: "?b = trim (collapse_ws ?b)" by (rule sym) (rule f [THEN conjunct1])
  have g3: "re_match True re_near ?b = None" by (rule f [THEN conjunct2, THEN conjunct1])
  have g4: "re_match True re_herd ?b = None"
    by (rule f [THEN conjunct2, THEN conjunct2, THEN conjunct1])
  have eg: "re_match True re_has_eggs ?b \<noteq> None"
    by (rule f [THEN conjunct2, THEN conjunct2, THEN conjunct2, THEN conjunct1])
  have g5: "re_match True re_has_eggs ?b \<noteq> None \<or> re_match True re_has_milk ?b \<noteq> None"
    by (rule disjI1) (rule eg)
  have rb: "extractRanchId ?b = Some 9007199254740992"
    by (rule f [THEN conjunct2, THEN conjunct2, THEN conjunct2, THEN conjunct2, THEN conjunct1])
  have g6: "extractRanchId ?b \<noteq> Some 0" unfolding rb by simp
  have nb: "map number_of_digits (digit_runs ?b) = [9007199254740992, 9007199254740992]"
    by (rule f [THEN conjunct2, THEN conjunct2, THEN conjunct2, THEN conjunct2, THEN conjunct2])
  have "extractItemAndAmount ?b
          = (let remaining = filter (\<lambda>n. Some n \<noteq> extractRanchId ?b)
                              (map number_of_digits (digit_runs ?b))
            in if remaining = [] then None
               else Some \<lparr>i_item_type = (if re_match True re_has_milk ?b \<noteq> None
                                         then Milk else Eggs),
                          i_amount = last remaining, i_value = Num 0, i_subtype = None\<rparr>)"
    by (rule fallback_rule [OF g1 g2 g3 g4 g5 g6])
  also have "\<dots> = None" unfolding rb nb by simp
  finally have cb: "extractItemAndAmount ?b = None" .
  show ?thesis
    by (intro conjI) (rule h1 h2 h3 h4 m r c g3 g4 eg rb cb)+
qed

section \<open>Malformed command arguments\<close>

text \<open>
  C9, as the specification states it, fails: with one row of 5 eggs older than seven days
  in the ledger, \<^verbatim>\<open>totals\<close> with the filter "7d" reports 0 eggs for the last 7 days,
  and with the malformed filter "7 days" it reports the all-time total of 5 eggs, exactly
  as it does without a filter. No validation message is returned.
\<close>

theorem malformed_since_read_as_all_time:
  "re_match True re_since (trim ''7 days'') = None
   \<and> cmd_totals 604805000 (Some ''7d'') ex_state = Totals_reply ''last 7d'' 0 0
   \<and> cmd_totals 604805000 (Some ''7 days'') ex_state = Totals_reply ''all-time'' 5 0
   \<and> cmd_totals 604805000 None ex_state = Totals_reply ''all-time'' 5 0"
  by code_simp

text \<open>
  C9 (amended): a \<^verbatim>\<open>since\<close> argument that is empty or does not match
  \<^verbatim>\<open><N>h\<close> or \<^verbatim>\<open><N>d\<close> is read as no filter: \<^verbatim>\<open>totals\<close> replies with the
  all-time totals and \<^verbatim>\<open>leaderboard\<close> gives the same reply as without the argument.
  \<^verbatim>\<open>set_report_schedule\<close> by a permitted user answers a missing argument with
  "Invalid arguments" and an out-of-range argument with "Invalid range", and leaves the
  database unchanged.
\<close>

theorem malformed_arguments:
  "(s = [] \<or> re_match True re_since (trim s) = None
      \<longrightarrow> parseSinceToTs now (Some s) = None
          \<and> cmd_totals now (Some s) st = cmd_totals now None st
          \<and> cmd_totals now None st
               = Totals_reply ''all-time'' (fst (sumTotals None None (gathers st)))
                   (snd (sumTotals None None (gathers st)))
          \<and> cmd_leaderboard rsum now (Some s) arg st = cmd_leaderboard rsum now None arg st)
   \<and> (w = None \<or> h = None \<or> m = None
      \<longrightarrow> cmd_set_report_schedule True w h m st = (Invalid_arguments, st))
   \<and> (wv < 0 \<or> wv > 6 \<or> hv < 0 \<or> hv > 23 \<or> mv < 0 \<or> mv > 59
      \<longrightarrow> cmd_set_report_schedule True (Some wv) (Some hv) (Some mv) st = (Invalid_range, st))"
proof (intro conjI impI)
  assume a: "s = [] \<or> re_match True re_since (trim s) = None"
  then show p: "parseSinceToTs now (Some s) = None" by (rule parseSince_malformed)
  have n: "parseSinceToTs now None = None" by (simp add: parseSinceToTs_def)
  show "cmd_totals now (Some s) st = cmd_totals now None st"
    by (simp add: cmd_totals_def p n)
  show "cmd_totals now None st
               = Totals_reply ''all-time'' (fst (sumTotals None None (gathers st)))
                   (snd (sumTotals None None (gathers st)))"
    by (simp add: cmd_totals_def n split: prod.splits)
  show "cmd_leaderboard rsum now (Some s) arg st = cmd_leaderboard rsum now None arg st"
    by (simp add: cmd_leaderboard_def leaderboard_rows_def p n)
next
  assume "w = None \<or> h = None \<or> m = None"
  then show "cmd_set_report_schedule True w h m st = (Invalid_arguments, st)"
    by (auto simp: cmd_set_report_schedule_def split: option.splits)
next
  assume "wv < 0 \<or> wv > 6 \<or> hv < 0 \<or> hv > 23 \<or> mv < 0 \<or> mv > 59"
  then show "cmd_set_report_schedule True (Some wv) (Some hv) (Some mv) st = (Invalid_range, st)"
    by (auto simp: cmd_set_report_schedule_def)
qed

text \<open>The filter "7 days", a missing hour, and the weekday 7.\<close>

theorem malformed_arguments_witness:
  "re_match True re_since (trim ''7 days'') = None
   \<and> cmd_totals 604805000 (Some ''7 days'') ex_state = cmd_totals 604805000 None ex_state
   \<and> cmd_set_report_schedule True (Some 1) None (Some 0) ex_state = (Invalid_arguments, ex_state)
   \<and> cmd_set_report_schedule True (Some 7) (Some 9) (Some 0) ex_state = (Invalid_range, ex_state)"
proof -
  note inst = malformed_arguments
    [where s = "''7 days''" and now = 604805000 and st = ex_state and w = "Some 1" and h = None
       and m = "Some 0" and wv = 7 and hv = 9 and mv = 0]
  have h1: "''7 days'' = [] \<or> re_match True re_since (trim ''7 days'') = None"
    by (rule disjI2) (rule since_days_malformed)
  have h2: "Some (1::int) = None \<or> (None :: int option) = None \<or> Some (0::int) = None" by simp
  have h3: "(7::int) < 0 \<or> (7::int) > 6 \<or> (9::int) < 0 \<or> (9::int) > 23 \<or> (0::int) < 0 \<or> (0::int) > 59"
    by simp
  from inst h1 have a: "cmd_totals 604805000 (Some ''7 days'') ex_state = cmd_totals 604805000 None ex_state"
    by blast
  from inst h2 have b: "cmd_set_report_schedule True (Some 1) None (Some 0) ex_state = (Invalid_arguments, ex_state)"
    by blast
  from inst h3 have c: "cmd_set_report_schedule True (Some 7) (Some 9) (Some 0) ex_state = (Invalid_range, ex_state)"
    by blast
  show ?thesis by (intro conjI) (rule since_days_malformed a b c)+
qed

section \<open>The leaderboard\<close>

text \<open>
  C8, as the specification states it, fails. In the example ledger the actor 222... is
  seen before 111..., both have 5 items, and 333... has 9. The leaderboard returns 333...,
  111..., 222...: the statement names no second sort key, and the rows of equal total come
  in the order of the grouping column. First-seen order would give 333..., 222..., 111....
\<close>

theorem leaderboard_order_not_first_seen:
  "leaderboard_rows sum_value 5000 None None ex_board
     = [ex_urow ''333333333333333333'' 9 0, ex_urow ''111111111111111111'' 0 5,
        ex_urow ''222222222222222222'' 5 0]
   \<and> spec_topUsers sum_value None None 50 (gathers ex_board)
     = [ex_urow ''333333333333333333'' 9 0, ex_urow ''222222222222222222'' 5 0,
        ex_urow ''111111111111111111'' 0 5]
   \<and> first_seen (actor_ids (gathers ex_board))
     = [''222222222222222222'', ''111111111111111111'', ''333333333333333333'']
   \<and> items_total (ex_urow ''111111111111111111'' 0 5)
     = items_total (ex_urow ''222222222222222222'' 5 0)"
  by code_simp

text \<open>
  C8 (amended): for every ledger and every limit argument, each row that the leaderboard
  returns belongs to a non-null actor id of the ledger and carries that actor's sums over
  the selected rows; no actor appears twice; the rows are in descending order of
  \<open>eggs + milk\<close>, rows of equal total in ascending order of the actor id; and no actor
  left out has more items than a row returned. When the limit argument is absent the
  number of rows is the smaller of 50 and the number of actors, and when it is not 0, the
  smaller of the argument clamped to 1..200 and the number of actors. With the limit 1
  and at least one actor the answer is the single row of an actor whose total no other
  actor exceeds.
\<close>

theorem leaderboard_rows_properties:
  "(\<forall>r \<in> set (leaderboard_rows rsum now since arg st).
       u_discord_id r \<in> ledger_actors (parseSinceToTs now since) (gathers st)
       \<and> items_total r = actor_items (parseSinceToTs now since) (gathers st) (u_discord_id r)
       \<and> r = group_row rsum (u_discord_id r)
               (filter (\<lambda>g. topUsers_where (parseSinceToTs now since) None g
                             \<and> g_discord_id g = Some (u_discord_id r)) (gathers st)))
   \<and> distinct (map u_discord_id (leaderboard_rows rsum now since arg st))
   \<and> sorted_wrt board_order (leaderboard_rows rsum now since arg st)
   \<and> (\<forall>u \<in> ledger_actors (parseSinceToTs now since) (gathers st).
         u \<notin> set (map u_discord_id (leaderboard_rows rsum now since arg st))
         \<longrightarrow> (\<forall>r \<in> set (leaderboard_rows rsum now since arg st).
                actor_items (parseSinceToTs now since) (gathers st) u \<le> items_total r))
   \<and> (arg = None
        \<longrightarrow> length (leaderboard_rows rsum now since arg st)
              = min 50 (card (ledger_actors (parseSinceToTs now since) (gathers st))))
   \<and> (arg = Some n \<and> n \<noteq> 0
        \<longrightarrow> length (leaderboard_rows rsum now since arg st)
              = min (nat (max 1 (min 200 n)))
                  (card (ledger_actors (parseSinceToTs now since) (gathers st))))
   \<and> (arg = Some 1 \<and> ledger_actors (parseSinceToTs now since) (gathers st) \<noteq> {}
        \<longrightarrow> (\<exists>r. leaderboard_rows rsum now since arg st = [r]
                 \<and> (\<forall>u \<in> ledger_actors (parseSinceToTs now since) (gathers st).
                       actor_items (parseSinceToTs now since) (gathers st) u \<le> items_total r)))"
proof -
  let ?S = "parseSinceToTs now since"
  let ?L = "nat (leaderboard_limit arg)"
  let ?rows = "leaderboard_rows rsum now since arg st"
  have rows: "?rows = topUsers rsum ?S None ?L (gathers st)"
    by (simp add: leaderboard_rows_def)
  have 1: "\<forall>r \<in> set ?rows.
       u_discord_id r \<in> ledger_actors ?S (gathers st)
       \<and> items_total r = actor_items ?S (gathers st) (u_discord_id r)
       \<and> r = group_row rsum (u_discord_id r)
               (filter (\<lambda>g. topUsers_where ?S None g \<and> g_discord_id g = Some (u_discord_id r))
                  (gathers st))"
  proof
    fix r assume "r \<in> set ?rows"
    with topUsers_subset have "r \<in> set (topUsers_groups rsum ?S None (gathers st))"
      unfolding rows by blast
    from groups_member [OF this]
    show "u_discord_id r \<in> ledger_actors ?S (gathers st)
       \<and> items_total r = actor_items ?S (gathers st) (u_discord_id r)
       \<and> r = group_row rsum (u_discord_id r)
               (filter (\<lambda>g. topUsers_where ?S None g \<and> g_discord_id g = Some (u_discord_id r))
                  (gathers st))" by blast
  qed
  have 2: "distinct (map u_discord_id ?rows)" unfolding rows by (rule topUsers_ids_distinct)
  have 3: "sorted_wrt board_order ?rows" unfolding rows by (rule topUsers_sorted)
  have 4: "\<forall>u \<in> ledger_actors ?S (gathers st).
         u \<notin> set (map u_discord_id ?rows)
         \<longrightarrow> (\<forall>r \<in> set ?rows. actor_items ?S (gathers st) u \<le> items_total r)"
    unfolding rows using topUsers_outranks by blast
  have len: "length ?rows = min ?L (card (ledger_actors ?S (gathers st)))"
    unfolding rows by (rule topUsers_length)
  have 5: "arg = None \<longrightarrow> length ?rows = min 50 (card (ledger_actors ?S (gathers st)))"
    using len by (auto simp: leaderboard_limit_def)
  have 6: "arg = Some n \<and> n \<noteq> 0
        \<longrightarrow> length ?rows = min (nat (max 1 (min 200 n))) (card (ledger_actors ?S (gathers st)))"
    using len by (auto simp: leaderboard_limit_def)
  have 7: "arg = Some 1 \<and> ledger_actors ?S (gathers st) \<noteq> {}
        \<longrightarrow> (\<exists>r. ?rows = [r]
                 \<and> (\<forall>u \<in> ledger_actors ?S (gathers st).
                       actor_items ?S (gathers st) u \<le> items_total r))"
  proof
    assume a: "arg = Some 1 \<and> ledger_actors ?S (gathers st) \<noteq> {}"
    then have "0 < card (ledger_actors ?S (gathers st))"
      using ledger_actors_finite by (simp add: card_gt_0_iff)
    moreover from a have "?L = 1" by (simp add: leaderboard_limit_def)
    ultimately have "length ?rows = 1" using len by simp
    then obtain r where r: "?rows = [r]" by (cases ?rows) auto
    have "\<forall>u \<in> ledger_actors ?S (gathers st). actor_items ?S (gathers st) u \<le> items_total r"
    proof
      fix u assume u: "u \<in> ledger_actors ?S (gathers st)"
      show "actor_items ?S (gathers st) u \<le> items_total r"
      proof (cases "u = u_discord_id r")
        case True
        with 1 r show ?thesis by simp
      next
        case False
        with r have "u \<notin> set (map u_discord_id ?rows)" by simp
        with 4 u r show ?thesis by simp
      qed
    qed
    with r show "\<exists>r. ?rows = [r]
                 \<and> (\<forall>u \<in> ledger_actors ?S (gathers st).
                       actor_items ?S (gathers st) u \<le> items_total r)" by blast
  qed
  from 1 2 3 4 5 6 7 show ?thesis by blast
qed

text \<open>The limits 1, 2 and absent on the example ledger of three actors.\<close>

theorem leaderboard_rows_properties_witness:
  "leaderboard_rows sum_value 5000 None (Some 1) ex_board = [ex_urow ''333333333333333333'' 9 0]
   \<and> ''222222222222222222'' \<in> ledger_actors (parseSinceToTs 5000 None) (gathers ex_board)
   \<and> actor_items (parseSinceToTs 5000 None) (gathers ex_board) ''222222222222222222''
       \<le> items_total (ex_urow ''333333333333333333'' 9 0)
   \<and> length (leaderboard_rows sum_value 5000 None (Some 2) ex_board)
       = min (nat (max 1 (min 200 2)))
           (card (ledger_actors (parseSinceToTs 5000 None) (gathers ex_board)))
   \<and> length (leaderboard_rows sum_value 5000 None None ex_board)
       = min 50 (card (ledger_actors (parseSinceToTs 5000 None) (gathers ex_board)))"
proof -
  let ?A = "ledger_actors (parseSinceToTs 5000 None) (gathers ex_board)"
  note one = leaderboard_rows_properties
    [where rsum = sum_value and now = 5000 and since = None and arg = "Some 1" and st = ex_board
       and n = 1]
  note two = leaderboard_rows_properties
    [where rsum = sum_value and now = 5000 and since = None and arg = "Some 2" and st = ex_board
       and n = 2]
  note dflt = leaderboard_rows_properties
    [where rsum = sum_value and now = 5000 and since = None and arg = None and st = ex_board]
  from board_actor have ne: "?A \<noteq> {}" by blast
  from one ne obtain r where r: "leaderboard_rows sum_value 5000 None (Some 1) ex_board = [r]"
    and top: "\<forall>u \<in> ?A. actor_items (parseSinceToTs 5000 None) (gathers ex_board) u
                          \<le> items_total r"
    by blast
  from r board_top have "r = ex_urow ''333333333333333333'' 9 0" by simp
  with top board_actor
  have a: "actor_items (parseSinceToTs 5000 None) (gathers ex_board) ''222222222222222222''
       \<le> items_total (ex_urow ''333333333333333333'' 9 0)" by blast
  have "Some (2::int) = Some 2 \<and> (2::int) \<noteq> 0" by simp
  with two have b: "length (leaderboard_rows sum_value 5000 None (Some 2) ex_board)
       = min (nat (max 1 (min 200 2))) (card ?A)" by blast
  from dflt have c: "length (leaderboard_rows sum_value 5000 None None ex_board)
       = min 50 (card ?A)" by blast
  show ?thesis by (intro conjI) (rule board_top board_actor a b c)+
qed

end
